theory Spec2Isabelle
  imports Main "HOL-Library.Sublist"
begin

section \<open>Go strings and the library functions used by execution.go\<close>

text \<open>
  A Go string is a sequence of bytes; \<^typ>\<open>string\<close> is a list of 8-bit characters, so
  \<^term>\<open>length\<close> is Go's \<open>len\<close>. Indices are \<^typ>\<open>int\<close>, because
  \<open>strings.Index\<close> and \<open>strings.LastIndex\<close> answer \<open>-1\<close> for "not found".
\<close>

datatype error = Err string

datatype panic = SliceBoundsOutOfRange | RegexpDoesNotParse

text \<open>\<open>err.Error()\<close>, and the \<open>%v\<close> verb of \<open>fmt\<close> on an error value
  (\<open><nil>\<close> for the nil error).\<close>

fun Error :: "error \<Rightarrow> string" where
  "Error (Err m) = m"

fun fmt_v :: "error option \<Rightarrow> string" where
  "fmt_v None = ''<nil>''"
| "fmt_v (Some e) = Error e"

text \<open>\<open>fmt.Errorf(prefix + "%v", err)\<close>.\<close>

definition Errorf :: "string \<Rightarrow> error option \<Rightarrow> error" where
  "Errorf pre err = Err (pre @ fmt_v err)"

text \<open>\<open>strings.Index(s, sub)\<close>: the first position where \<open>sub\<close> occurs, or \<open>-1\<close>.\<close>

fun Index :: "string \<Rightarrow> string \<Rightarrow> int" where
  "Index [] sub = (if sub = [] then 0 else - 1)"
| "Index (c # s) sub =
     (if prefix sub (c # s) then 0
      else (let i = Index s sub in if i = - 1 then - 1 else i + 1))"

text \<open>\<open>strings.LastIndex(s, sub)\<close>: the last position where \<open>sub\<close> occurs, or \<open>-1\<close>.\<close>

fun LastIndex :: "string \<Rightarrow> string \<Rightarrow> int" where
  "LastIndex [] sub = (if sub = [] then 0 else - 1)"
| "LastIndex (c # s) sub =
     (let i = LastIndex s sub in
      if i \<noteq> - 1 then i + 1
      else if prefix sub (c # s) then 0 else - 1)"

text \<open>The slice expression \<open>s[lo:hi]\<close>; Go panics unless \<open>0 \<le> lo \<le> hi \<le> len(s)\<close>.\<close>

definition slice :: "string \<Rightarrow> int \<Rightarrow> int \<Rightarrow> panic + string" where
  "slice s lo hi =
     (if 0 \<le> lo \<and> lo \<le> hi \<and> hi \<le> int (length s)
      then Inr (take (nat (hi - lo)) (drop (nat lo) s))
      else Inl SliceBoundsOutOfRange)"

text \<open>\<open>strings.ReplaceAll(s, "/", ":")\<close>: both strings are one byte long, so the
  replacement is byte by byte.\<close>

definition ReplaceAll_slash_colon :: "string \<Rightarrow> string" where
  "ReplaceAll_slash_colon s = map (\<lambda>c. if c = CHR ''/'' then CHR '':'' else c) s"

subsection \<open>\<open>path.Join\<close> and \<open>path.Clean\<close>\<close>

text \<open>
  The Go library's \<open>path.Clean\<close>, element by element: empty elements and \<open>.\<close> are
  dropped, \<open>..\<close> removes the element before it, is dropped at the root, and is kept at the
  front of a path that is not rooted; the empty result is \<open>.\<close>.
\<close>

fun split_slash :: "string \<Rightarrow> string list" where
  "split_slash [] = [[]]"
| "split_slash (c # s) =
     (if c = CHR ''/'' then [] # split_slash s
      else (case split_slash s of [] \<Rightarrow> [[c]] | e # es \<Rightarrow> (c # e) # es))"

fun join_slash :: "string list \<Rightarrow> string" where
  "join_slash [] = []"
| "join_slash [e] = e"
| "join_slash (e # es) = e @ CHR ''/'' # join_slash es"

fun clean_elems :: "bool \<Rightarrow> string list \<Rightarrow> string list \<Rightarrow> nat \<Rightarrow> string list" where
  "clean_elems rooted [] out dotdot = rev out"
| "clean_elems rooted (e # es) out dotdot =
     (if e = [] \<or> e = ''.'' then clean_elems rooted es out dotdot
      else if e = ''..'' then
        (if length out > dotdot then clean_elems rooted es (tl out) dotdot
         else if \<not> rooted then clean_elems rooted es (''..'' # out) (length out + 1)
         else clean_elems rooted es out dotdot)
      else clean_elems rooted es (e # out) dotdot)"

definition Clean :: "string \<Rightarrow> string" where
  "Clean p =
     (if p = [] then ''.''
      else let rooted = (hd p = CHR ''/'');
               out = clean_elems rooted (split_slash p) [] 0
           in if rooted then CHR ''/'' # join_slash out
              else if out = [] then ''.'' else join_slash out)"

text \<open>\<open>path.Join(elem...)\<close>: leading empty elements are skipped, the rest are joined
  with slashes and cleaned; all elements empty gives the empty string.\<close>

fun join_buf :: "string \<Rightarrow> string list \<Rightarrow> string" where
  "join_buf buf [] = buf"
| "join_buf buf (e # es) =
     (if buf \<noteq> [] \<or> e \<noteq> [] then
        join_buf ((if buf \<noteq> [] then buf @ ''/'' else buf) @ e) es
      else join_buf buf es)"

definition path_Join :: "string list \<Rightarrow> string" where
  "path_Join elem = (if concat elem = [] then [] else Clean (join_buf [] elem))"

section \<open>The plan file of a project\<close>

record ProjectPathProvider =
  ProjectPath :: string
  ProjectNamespace :: string
  ProjectName :: string

definition PlanFileName :: "ProjectPathProvider \<Rightarrow> string" where
  "PlanFileName d =
     ReplaceAll_slash_colon (ProjectNamespace d) @ ''#'' @ ProjectName d @ ''.tfplan''"

definition LocalPlanFilePath :: "ProjectPathProvider \<Rightarrow> string" where
  "LocalPlanFilePath d = path_Join [ProjectPath d, PlanFileName d]"

definition StoredPlanFilePath :: "ProjectPathProvider \<Rightarrow> string" where
  "StoredPlanFilePath d = path_Join [ProjectNamespace d, PlanFileName d]"

section \<open>The output sanitizer\<close>

text \<open>
  A compiled regular expression is represented by what the code asks of it:
  \<open>FindStringSubmatch\<close>, a function from the searched string to the list of submatches
  of the leftmost match (empty when there is no match, the whole match first otherwise).

  A pattern string is represented by what \<open>regexp.MustCompile\<close> makes of it: either it
  compiles to such a matcher, or it does not parse (as \<open>(\<close> does not, for its missing
  closing parenthesis), and then \<open>MustCompile\<close> panics.
\<close>

type_synonym regexp = "string \<Rightarrow> string list"

datatype pattern = Compiles regexp | DoesNotParse

fun MustCompile :: "pattern \<Rightarrow> panic + regexp" where
  "MustCompile (Compiles regex) = Inr regex"
| "MustCompile DoesNotParse = Inl RegexpDoesNotParse"

definition marker :: string where
  "marker = ''Initializing the backend...''"

definition anchor :: "bool \<Rightarrow> string" where
  "anchor nonEmptyOutput =
     (if nonEmptyOutput then ''Terraform will perform the following actions:''
      else ''No changes. Your infrastructure matches the configuration.'')"

text \<open>Step 1 of the sanitizer: \<open>stdout = stdout[i:]\<close> at the first marker.\<close>

definition trim_marker :: "string \<Rightarrow> panic + string" where
  "trim_marker stdout =
     (let i = Index stdout marker in
      if i \<noteq> - 1 then slice stdout i (int (length stdout)) else Inr stdout)"

definition cleanupTerraformOutput ::
  "bool \<Rightarrow> error option \<Rightarrow> string \<Rightarrow> string \<Rightarrow> pattern option \<Rightarrow> panic + string" where
  "cleanupTerraformOutput nonEmptyOutput planError stdout stderr regexStr =
     (case trim_marker stdout of
        Inl p \<Rightarrow> Inl p
      | Inr stdout \<Rightarrow>
          (let endPos = int (length stdout) in
           if planError \<noteq> None then
             Inr (if stderr \<noteq> [] then stderr else if stdout \<noteq> [] then stdout else [])
           else
             (let start = anchor nonEmptyOutput;
                  startPos = Index stdout start;
                  startPos = (if startPos = - 1 then 0 else startPos)
              in case (case regexStr of
                         None \<Rightarrow> Inr endPos
                       | Some pat \<Rightarrow>
                           (case MustCompile pat of
                              Inl p \<Rightarrow> Inl p
                            | Inr regex \<Rightarrow>
                                (let matches = regex stdout in
                                 if length matches > 0 then
                                   (let firstMatch = matches ! 0 in
                                    Inr (LastIndex stdout firstMatch + int (length firstMatch)))
                                 else Inr endPos))) of
                   Inl p \<Rightarrow> Inl p
                 | Inr endPos \<Rightarrow>
                     (let endPos = (if endPos \<le> startPos then int (length stdout) else endPos)
                      in slice stdout startPos endPos))))"

definition cleanupTerraformApply ::
  "bool \<Rightarrow> error option \<Rightarrow> string \<Rightarrow> string \<Rightarrow> panic + string" where
  "cleanupTerraformApply nonEmptyPlan planError stdout stderr =
     cleanupTerraformOutput nonEmptyPlan planError stdout stderr None"

text \<open>
  The plan pattern is eleven box-drawing dashes (U+2500, three bytes each in UTF-8)
  followed by \<open>.+\<close>: one or more characters other than a newline, as many as there are.
  It parses. Its leftmost match starts at the first run of eleven dashes that is followed by a byte
  other than a newline, and reaches to the end of that line.
\<close>

definition dash :: string where
  "dash = [CHR 0xE2, CHR 0x94, CHR 0x80]"

definition dashes :: string where
  "dashes = dash @ dash @ dash @ dash @ dash @ dash @ dash @ dash @ dash @ dash @ dash"

definition rest_of_line :: "string \<Rightarrow> string" where
  "rest_of_line s = takeWhile (\<lambda>c. c \<noteq> CHR 0x0A) s"

fun plan_regex :: regexp where
  "plan_regex [] = []"
| "plan_regex (c # s) =
     (if prefix dashes (c # s) \<and> rest_of_line (drop (length dashes) (c # s)) \<noteq> []
      then [dashes @ rest_of_line (drop (length dashes) (c # s))]
      else plan_regex s)"

definition cleanupTerraformPlan ::
  "bool \<Rightarrow> error option \<Rightarrow> string \<Rightarrow> string \<Rightarrow> panic + string" where
  "cleanupTerraformPlan nonEmptyPlan planError stdout stderr =
     cleanupTerraformOutput nonEmptyPlan planError stdout stderr (Some (Compiles plan_regex))"

text \<open>What the library promises of a match: it is a piece of the searched string.\<close>

definition match_in_input :: "regexp \<Rightarrow> bool" where
  "match_in_input regex = (\<forall>s. regex s = [] \<or> sublist (regex s ! 0) s)"

text \<open>The patterns the sanitizer returns on: none, or one that compiles to a matcher of the
  library's.\<close>

fun pattern_compiles :: "pattern option \<Rightarrow> bool" where
  "pattern_compiles None = True"
| "pattern_compiles (Some (Compiles regex)) = match_in_input regex"
| "pattern_compiles (Some DoesNotParse) = False"
subsection \<open>The language of the plan pattern\<close>

text \<open>
  A reading of the plan pattern as a set of matches, to compare the code with: the pattern
  matches the bytes \<open>p..q\<close> of \<open>s\<close> when they are the eleven dashes followed by at
  least one byte, none of them a newline.
\<close>

definition plan_pattern_matches :: "string \<Rightarrow> nat \<Rightarrow> nat \<Rightarrow> bool" where
  "plan_pattern_matches s p q =
     (p \<le> q \<and> q \<le> length s \<and>
      (let sub = take (q - p) (drop p s) in
       prefix dashes sub \<and> drop (length dashes) sub \<noteq> [] \<and>
       CHR 0x0A \<notin> set (drop (length dashes) sub)))"

subsection \<open>Sample outputs\<close>

text \<open>Two separator lines with different tails.\<close>

definition two_separators :: string where
  "two_separators = dashes @ ''a'' @ [CHR 0x0A] @ dashes @ ''b''"

text \<open>An output in which the backend marker appears again after the start anchor.\<close>

definition marker_twice :: string where
  "marker_twice = marker @ anchor True @ marker"

text \<open>A plan output: version noise, the marker, the anchor, a change, a separator line
  and the closing remark; \<open>plan_sample_clean\<close> is the part from the anchor to the end of the
  separator line.\<close>

definition plan_sample_clean :: string where
  "plan_sample_clean = anchor True @ '' +x '' @ dashes @ ''-''"

definition plan_sample_trimmed :: string where
  "plan_sample_trimmed = marker @ '' '' @ plan_sample_clean @ [CHR 0x0A] @ ''Saved''"

definition plan_sample :: string where
  "plan_sample = ''v1 '' @ plan_sample_trimmed"

section \<open>Collaborators and the call trace\<close>

text \<open>
  The executor talks to injected collaborators: the lock, the tool runner, the command
  runner, the plan storage and the reporter. Each of their operations is a function on an
  outside world \<open>'w\<close> that returns its results and the new world. The executor's state is
  that world together with the trace of the calls made so far, with their arguments and
  results, and of the lines logged; collaborators see the world only.
\<close>

type_synonym envmap = "string \<rightharpoonup> string"

text \<open>Modelled from the spec: the formatters of package \<open>utils\<close> are not part of the
  sources at hand; a formatter "wraps content as a labeled collapsible block", so it is
  represented by its constructor and its label.\<close>

datatype formatter =
    GetTerraformOutputAsCollapsibleComment string
  | AsCollapsibleComment string

text \<open>Modelled from the spec: \<open>models.Step\<close> and \<open>models.Stage\<close> are declared in a
  package that is not part of the sources at hand. A step has an action, extra arguments,
  a command body and a shell; a stage is an ordered sequence of steps.\<close>

record Step =
  Action :: string
  ExtraArgs :: "string list"
  Value :: string
  Shell :: string

record Stage =
  Steps :: "Step list"

datatype event =
    LockCalled bool "error option"
  | ForceUnlockCalled "error option"
  | LockIdCalled string
  | InitCalled "string list" envmap "error option"
  | PlanCalled "string list" envmap bool string string "error option"
  | ApplyCalled "string list" "string option" envmap string string "error option"
  | RunCalled string string "string list" "error option"
  | ReportCalled string formatter "error option"
  | PlanExistsCalled string bool "error option"
  | DeleteStoredPlanCalled string "error option"
  | StorePlanCalled string string "error option"
  | RetrievePlanCalled string string "string option" "error option"
  | Logged string
  | Printed string

type_synonym 'w st = "event list \<times> 'w"

definition call :: "('w \<Rightarrow> 'r \<times> 'w) \<Rightarrow> ('r \<Rightarrow> event) \<Rightarrow> 'w st \<Rightarrow> 'r \<times> 'w st" where
  "call f ev s = (case f (snd s) of (r, w) \<Rightarrow> (r, (fst s @ [ev r], w)))"

definition emit :: "event \<Rightarrow> 'w st \<Rightarrow> 'w st" where
  "emit e s = (fst s @ [e], snd s)"

text \<open>The \<open>%t\<close> verb of \<open>fmt\<close>, and the newline that ends a log line.\<close>

definition fmt_t :: "bool \<Rightarrow> string" where
  "fmt_t b = (if b then ''true'' else ''false'')"

definition nl :: string where
  "nl = [CHR 0x0A]"

record 'w ProjectLock =
  pl_Lock :: "'w \<Rightarrow> (bool \<times> error option) \<times> 'w"
  pl_ForceUnlock :: "'w \<Rightarrow> error option \<times> 'w"
  pl_LockId :: "'w \<Rightarrow> string \<times> 'w"

record 'w TerraformExecutor =
  tf_Init :: "string list \<Rightarrow> envmap \<Rightarrow> 'w \<Rightarrow> (string \<times> string \<times> error option) \<times> 'w"
  tf_Plan :: "string list \<Rightarrow> envmap \<Rightarrow> 'w \<Rightarrow> (bool \<times> string \<times> string \<times> error option) \<times> 'w"
  tf_Apply :: "string list \<Rightarrow> string option \<Rightarrow> envmap \<Rightarrow> 'w
                 \<Rightarrow> (string \<times> string \<times> error option) \<times> 'w"

record 'w CommandRun =
  cr_Run :: "string \<Rightarrow> string \<Rightarrow> string list \<Rightarrow> 'w \<Rightarrow> (string \<times> string \<times> error option) \<times> 'w"

record 'w Reporter =
  rp_Report :: "string \<Rightarrow> formatter \<Rightarrow> 'w \<Rightarrow> error option \<times> 'w"

record 'w PlanStorage =
  ps_PlanExists :: "string \<Rightarrow> 'w \<Rightarrow> (bool \<times> error option) \<times> 'w"
  ps_DeleteStoredPlan :: "string \<Rightarrow> 'w \<Rightarrow> error option \<times> 'w"
  ps_StorePlan :: "string \<Rightarrow> string \<Rightarrow> 'w \<Rightarrow> error option \<times> 'w"
  ps_RetrievePlan :: "string \<Rightarrow> string \<Rightarrow> 'w \<Rightarrow> (string option \<times> error option) \<times> 'w"

text \<open>The interface \<open>PlanPathProvider\<close>: three methods without arguments, read as the
  three strings they return. \<open>ProjectPathProvider\<close> implements it.\<close>

record PlanPathProvider =
  pp_LocalPlanFilePath :: string
  pp_StoredPlanFilePath :: string
  pp_PlanFileName :: string

definition as_PlanPathProvider :: "ProjectPathProvider \<Rightarrow> PlanPathProvider" where
  "as_PlanPathProvider d =
     \<lparr>pp_LocalPlanFilePath = LocalPlanFilePath d,
      pp_StoredPlanFilePath = StoredPlanFilePath d,
      pp_PlanFileName = PlanFileName d\<rparr>"

section \<open>The locking wrapper\<close>

text \<open>The interface \<open>Executor\<close>; a call may end in a panic.\<close>

record 'w Executor =
  ex_Plan :: "'w st \<Rightarrow> (panic + bool \<times> string \<times> error option) \<times> 'w st"
  ex_Apply :: "'w st \<Rightarrow> (panic + bool \<times> error option) \<times> 'w st"

record 'w LockingExecutorWrapper =
  lw_ProjectLock :: "'w ProjectLock"
  lw_Executor :: "'w Executor"

definition call_Lock :: "'w ProjectLock \<Rightarrow> 'w st \<Rightarrow> (bool \<times> error option) \<times> 'w st" where
  "call_Lock pl s = call (pl_Lock pl) (\<lambda>(locked, err). LockCalled locked err) s"

definition LockingExecutorWrapper_Plan ::
  "'w LockingExecutorWrapper \<Rightarrow> 'w st \<Rightarrow> (panic + bool \<times> string \<times> error option) \<times> 'w st" where
  "LockingExecutorWrapper_Plan l s =
     (let plan = [] in
      case call_Lock (lw_ProjectLock l) s of
        ((locked, err), s) \<Rightarrow>
          if err \<noteq> None then
            (Inr (False, [], Some (Errorf ''error locking project: '' err)), s)
          else
            (let s = emit (Logged (''Lock result: '' @ fmt_t locked @ nl)) s in
             if locked then ex_Plan (lw_Executor l) s
             else (Inr (False, plan, None), s)))"

definition LockingExecutorWrapper_Apply ::
  "'w LockingExecutorWrapper \<Rightarrow> 'w st \<Rightarrow> (panic + bool \<times> error option) \<times> 'w st" where
  "LockingExecutorWrapper_Apply l s =
     (case call_Lock (lw_ProjectLock l) s of
        ((locked, err), s) \<Rightarrow>
          if err \<noteq> None then
            (Inr (False, Some (Errorf ''error locking project: '' err)), s)
          else
            (let s = emit (Logged (''Lock result: '' @ fmt_t locked @ nl)) s in
             if locked then ex_Apply (lw_Executor l) s
             else (Inr (False, None), s)))"

text \<open>\<open>fmt.Errorf("failed to aquire lock: %s, %v", l.ProjectLock.LockId(), err)\<close>: the
  lock id is asked for only when the message is built.\<close>

definition failed_to_aquire :: "'w ProjectLock \<Rightarrow> error option \<Rightarrow> 'w st \<Rightarrow> error option \<times> 'w st" where
  "failed_to_aquire pl err s =
     (case call (pl_LockId pl) LockIdCalled s of
        (lockId, s) \<Rightarrow> (Some (Err (''failed to aquire lock: '' @ lockId @ '', '' @ fmt_v err)), s))"

definition LockingExecutorWrapper_Unlock ::
  "'w LockingExecutorWrapper \<Rightarrow> 'w st \<Rightarrow> error option \<times> 'w st" where
  "LockingExecutorWrapper_Unlock l s =
     (case call (pl_ForceUnlock (lw_ProjectLock l)) ForceUnlockCalled s of
        (err, s) \<Rightarrow>
          if err \<noteq> None then failed_to_aquire (lw_ProjectLock l) err s
          else (None, s))"

definition LockingExecutorWrapper_Lock ::
  "'w LockingExecutorWrapper \<Rightarrow> 'w st \<Rightarrow> error option \<times> 'w st" where
  "LockingExecutorWrapper_Lock l s =
     (case call_Lock (lw_ProjectLock l) s of
        ((_, err), s) \<Rightarrow>
          if err \<noteq> None then failed_to_aquire (lw_ProjectLock l) err s
          else (None, s))"

section \<open>The step interpreter\<close>

text \<open>
  The fields of \<open>DiggerExecutor\<close> carry the prefix \<open>de_\<close>; a nil stage or a nil plan
  storage is \<open>None\<close>. \<open>os.Getenv\<close> is the function \<open>getenv\<close> handed to \<open>Plan\<close> and
  \<open>Apply\<close>: the process environment, with the empty string for an unset variable.
\<close>

record 'w DiggerExecutor =
  de_ProjectNamespace :: string
  de_ProjectName :: string
  de_ProjectPath :: string
  de_StateEnvVars :: envmap
  de_CommandEnvVars :: envmap
  de_ApplyStage :: "Stage option"
  de_PlanStage :: "Stage option"
  de_CommandRunner :: "'w CommandRun"
  de_TerraformExecutor :: "'w TerraformExecutor"
  de_Reporter :: "'w Reporter"
  de_PlanStorage :: "'w PlanStorage option"
  de_PlanPathProvider :: PlanPathProvider

text \<open>The composite literal \<open>models.Step{Action: a}\<close>.\<close>

definition Step_of_Action :: "string \<Rightarrow> Step" where
  "Step_of_Action a = \<lparr>Action = a, ExtraArgs = [], Value = [], Shell = []\<rparr>"

text \<open>
  What one part of a loop body decides: \<open>Inl r\<close> is \<open>return r\<close> (or a panic), \<open>Inr x\<close>
  goes on with \<open>x\<close>.
\<close>

type_synonym plan_result = "panic + bool \<times> string \<times> error option"
type_synonym apply_result = "panic + bool \<times> error option"

subsection \<open>\<open>init\<close>, in both loops\<close>

definition call_Init :: "'w DiggerExecutor \<Rightarrow> Step \<Rightarrow> 'w st \<Rightarrow> error option \<times> 'w st" where
  "call_Init d step s =
     (case call (tf_Init (de_TerraformExecutor d) (ExtraArgs step) (de_StateEnvVars d))
             (\<lambda>(_, _, err). InitCalled (ExtraArgs step) (de_StateEnvVars d) err) s of
        ((_, _, err), s) \<Rightarrow> (err, s))"

subsection \<open>\<open>run\<close>, in both loops\<close>

definition Plan_run_commands :: "(string \<Rightarrow> string) \<Rightarrow> Step \<Rightarrow> string list" where
  "Plan_run_commands getenv step =
     (let commands = [];
          commands =
            (if getenv ''ACTIVATE_VENV'' = ''true''
             then commands @ [''source '' @ getenv ''GITHUB_WORKSPACE'' @ ''/.venv/bin/activate'']
             else commands)
      in commands @ [Value step])"

definition Apply_run_commands :: "'w DiggerExecutor \<Rightarrow> (string \<Rightarrow> string) \<Rightarrow> Step \<Rightarrow> string list" where
  "Apply_run_commands d getenv step =
     (let commands = [];
          commands =
            (if getenv ''ACTIVATE_VENV'' = ''true''
             then commands @ [''source '' @ de_ProjectPath d @ ''/.venv/bin/activate'']
             else commands)
      in commands @ [Value step])"

definition call_Run :: "'w DiggerExecutor \<Rightarrow> Step \<Rightarrow> string list \<Rightarrow> 'w st \<Rightarrow> error option \<times> 'w st" where
  "call_Run d step commands s =
     (let s = emit (Logged (''Running '' @ Value step @ '' for **'' @ de_ProjectNamespace d
                             @ ''#'' @ de_ProjectName d @ ''**'' @ nl)) s in
      case call (cr_Run (de_CommandRunner d) (de_ProjectPath d) (Shell step) commands)
             (\<lambda>(_, _, err). RunCalled (de_ProjectPath d) (Shell step) commands err) s of
        ((_, _, err), s) \<Rightarrow> (err, s))"

subsection \<open>\<open>Plan\<close>\<close>

definition Plan_init :: "'w DiggerExecutor \<Rightarrow> Step \<Rightarrow> 'w st \<Rightarrow> (plan_result + unit) \<times> 'w st" where
  "Plan_init d step s =
     (if Action step = ''init'' then
        (case call_Init d step s of
           (err, s) \<Rightarrow>
             if err \<noteq> None then (Inl (Inr (False, [], Some (Errorf ''error running init: '' err))), s)
             else (Inr (), s))
      else (Inr (), s))"

text \<open>The block guarded by \<open>d.PlanStorage != nil\<close>; its \<open>err\<close> is a variable of its own.\<close>

definition Plan_store :: "'w DiggerExecutor \<Rightarrow> 'w st \<Rightarrow> (plan_result + unit) \<times> 'w st" where
  "Plan_store d s =
     (case de_PlanStorage d of
        None \<Rightarrow> (Inr (), s)
      | Some ps \<Rightarrow>
          (let stored = pp_StoredPlanFilePath (de_PlanPathProvider d) in
           case call (ps_PlanExists ps stored)
                  (\<lambda>(planExists, err). PlanExistsCalled stored planExists err) s of
             ((planExists, err), s) \<Rightarrow>
               if err \<noteq> None then
                 (Inl (Inr (False, [], Some (Errorf ''error checking if plan exists: '' err))), s)
               else
                 (case (if planExists then
                          (case call (ps_DeleteStoredPlan ps stored)
                                  (DeleteStoredPlanCalled stored) s of
                             (err, s) \<Rightarrow>
                               if err \<noteq> None then
                                 (Inl (Inr (False, [], Some (Errorf ''error deleting plan: '' err))), s)
                               else (Inr (), s))
                        else (Inr (), s)) of
                    (Inl r, s) \<Rightarrow> (Inl r, s)
                  | (Inr _, s) \<Rightarrow>
                      (let local = pp_LocalPlanFilePath (de_PlanPathProvider d) in
                       case call (ps_StorePlan ps local stored) (StorePlanCalled local stored) s of
                         (err, s) \<Rightarrow>
                           if err \<noteq> None then
                             (Inl (Inr (False, [], Some (Errorf ''error storing plan: '' err))), s)
                           else (Inr (), s)))))"

definition Plan_plan ::
  "'w DiggerExecutor \<Rightarrow> Step \<Rightarrow> string \<Rightarrow> 'w st \<Rightarrow> (plan_result + string) \<times> 'w st" where
  "Plan_plan d step plan s =
     (if Action step = ''plan'' then
        (let planArgs = [''-out'', pp_PlanFileName (de_PlanPathProvider d)];
             planArgs = planArgs @ ExtraArgs step
         in case call (tf_Plan (de_TerraformExecutor d) planArgs (de_CommandEnvVars d))
                  (\<lambda>(isNonEmptyPlan, stdout, stderr, err).
                      PlanCalled planArgs (de_CommandEnvVars d) isNonEmptyPlan stdout stderr err) s of
              ((isNonEmptyPlan, stdout, stderr, err), s) \<Rightarrow>
                if err \<noteq> None then
                  (Inl (Inr (False, [], Some (Errorf ''error executing plan: '' err))), s)
                else
                  (case Plan_store d s of
                     (Inl r, s) \<Rightarrow> (Inl r, s)
                   | (Inr _, s) \<Rightarrow>
                       (case cleanupTerraformPlan isNonEmptyPlan err stdout stderr of
                          Inl p \<Rightarrow> (Inl (Inl p), s)
                        | Inr plan \<Rightarrow>
                            (Inr plan,
                             if err \<noteq> None
                             then emit (Printed (''error publishing comment: '' @ fmt_v err)) s
                             else s))))
      else (Inr plan, s))"

definition Plan_run ::
  "'w DiggerExecutor \<Rightarrow> (string \<Rightarrow> string) \<Rightarrow> Step \<Rightarrow> 'w st \<Rightarrow> (plan_result + unit) \<times> 'w st" where
  "Plan_run d getenv step s =
     (if Action step = ''run'' then
        (case call_Run d step (Plan_run_commands getenv step) s of
           (err, s) \<Rightarrow>
             if err \<noteq> None then
               (Inl (Inr (False, [], Some (Errorf ''error running command: '' err))), s)
             else (Inr (), s))
      else (Inr (), s))"

text \<open>The body of the loop: the three \<open>if\<close> statements one after the other.\<close>

definition Plan_step ::
  "'w DiggerExecutor \<Rightarrow> (string \<Rightarrow> string) \<Rightarrow> Step \<Rightarrow> string \<Rightarrow> 'w st
     \<Rightarrow> (plan_result + string) \<times> 'w st" where
  "Plan_step d getenv step plan s =
     (case Plan_init d step s of
        (Inl r, s) \<Rightarrow> (Inl r, s)
      | (Inr _, s) \<Rightarrow>
          (case Plan_plan d step plan s of
             (Inl r, s) \<Rightarrow> (Inl r, s)
           | (Inr plan, s) \<Rightarrow>
               (case Plan_run d getenv step s of
                  (Inl r, s) \<Rightarrow> (Inl r, s)
                | (Inr _, s) \<Rightarrow> (Inr plan, s))))"

fun Plan_loop ::
  "'w DiggerExecutor \<Rightarrow> (string \<Rightarrow> string) \<Rightarrow> Step list \<Rightarrow> string \<Rightarrow> 'w st
     \<Rightarrow> plan_result \<times> 'w st" where
  "Plan_loop d getenv [] plan s = (Inr (True, plan, None), s)"
| "Plan_loop d getenv (step # steps) plan s =
     (case Plan_step d getenv step plan s of
        (Inl r, s) \<Rightarrow> (r, s)
      | (Inr plan, s) \<Rightarrow> Plan_loop d getenv steps plan s)"

definition planSteps :: "'w DiggerExecutor \<Rightarrow> Step list" where
  "planSteps d =
     (case de_PlanStage d of
        Some stage \<Rightarrow> Steps stage
      | None \<Rightarrow> [Step_of_Action ''init'', Step_of_Action ''plan''])"

definition Plan :: "'w DiggerExecutor \<Rightarrow> (string \<Rightarrow> string) \<Rightarrow> 'w st \<Rightarrow> plan_result \<times> 'w st" where
  "Plan d getenv s = (let plan = [] in Plan_loop d getenv (planSteps d) plan s)"

subsection \<open>\<open>Apply\<close>\<close>

text \<open>The retrieval of the stored plan, before the loop.\<close>

definition Apply_retrieve :: "'w DiggerExecutor \<Rightarrow> 'w st \<Rightarrow> (apply_result + string option) \<times> 'w st" where
  "Apply_retrieve d s =
     (let plansFilename = None in
      case de_PlanStorage d of
        None \<Rightarrow> (Inr plansFilename, s)
      | Some ps \<Rightarrow>
          (let local = pp_LocalPlanFilePath (de_PlanPathProvider d);
               stored = pp_StoredPlanFilePath (de_PlanPathProvider d)
           in case call (ps_RetrievePlan ps local stored)
                    (\<lambda>(plansFilename, err). RetrievePlanCalled local stored plansFilename err) s of
                ((plansFilename, err), s) \<Rightarrow>
                  if err \<noteq> None then
                    (Inl (Inr (False, Some (Errorf ''error retrieving plan: '' err))), s)
                  else (Inr plansFilename, s)))"

definition Apply_init :: "'w DiggerExecutor \<Rightarrow> Step \<Rightarrow> 'w st \<Rightarrow> (apply_result + unit) \<times> 'w st" where
  "Apply_init d step s =
     (if Action step = ''init'' then
        (case call_Init d step s of
           (err, s) \<Rightarrow>
             if err \<noteq> None then (Inl (Inr (False, Some (Errorf ''error running init: '' err))), s)
             else (Inr (), s))
      else (Inr (), s))"

text \<open>\<open>d.Reporter.Report(content, formatter)\<close> followed by the check of \<open>commentErr\<close>,
  which prints the apply error \<open>err\<close>.\<close>

definition report :: "'w DiggerExecutor \<Rightarrow> string \<Rightarrow> formatter \<Rightarrow> error option \<Rightarrow> 'w st \<Rightarrow> 'w st" where
  "report d content formatter err s =
     (case call (rp_Report (de_Reporter d) content formatter) (ReportCalled content formatter) s of
        (commentErr, s) \<Rightarrow>
          if commentErr \<noteq> None
          then emit (Printed (''error publishing comment: '' @ fmt_v err)) s
          else s)"

definition Apply_apply ::
  "'w DiggerExecutor \<Rightarrow> string option \<Rightarrow> Step \<Rightarrow> 'w st \<Rightarrow> (apply_result + unit) \<times> 'w st" where
  "Apply_apply d plansFilename step s =
     (if Action step = ''apply'' then
        (case call (tf_Apply (de_TerraformExecutor d) (ExtraArgs step) plansFilename
                      (de_CommandEnvVars d))
                (\<lambda>(stdout, stderr, err).
                    ApplyCalled (ExtraArgs step) plansFilename (de_CommandEnvVars d)
                      stdout stderr err) s of
           ((stdout, stderr, err), s) \<Rightarrow>
             (case cleanupTerraformApply True err stdout stderr of
                Inl p \<Rightarrow> (Inl (Inl p), s)
              | Inr applyOutput \<Rightarrow>
                  (let formatter = GetTerraformOutputAsCollapsibleComment
                         (''Apply for <b>'' @ de_ProjectNamespace d @ ''#'' @ de_ProjectName d
                            @ ''</b>'');
                       s = report d applyOutput formatter err s
                   in case err of
                        Some e \<Rightarrow>
                          (let s = report d (Error e)
                                     (AsCollapsibleComment ''Error during applying.'') err s
                           in (Inl (Inr (False, Some (Errorf ''error executing apply: '' err))), s))
                      | None \<Rightarrow> (Inr (), s))))
      else (Inr (), s))"

definition Apply_run ::
  "'w DiggerExecutor \<Rightarrow> (string \<Rightarrow> string) \<Rightarrow> Step \<Rightarrow> 'w st \<Rightarrow> (apply_result + unit) \<times> 'w st" where
  "Apply_run d getenv step s =
     (if Action step = ''run'' then
        (case call_Run d step (Apply_run_commands d getenv step) s of
           (err, s) \<Rightarrow>
             if err \<noteq> None then
               (Inl (Inr (False, Some (Errorf ''error running command: '' err))), s)
             else (Inr (), s))
      else (Inr (), s))"

definition Apply_step ::
  "'w DiggerExecutor \<Rightarrow> (string \<Rightarrow> string) \<Rightarrow> string option \<Rightarrow> Step \<Rightarrow> 'w st
     \<Rightarrow> (apply_result + unit) \<times> 'w st" where
  "Apply_step d getenv plansFilename step s =
     (case Apply_init d step s of
        (Inl r, s) \<Rightarrow> (Inl r, s)
      | (Inr _, s) \<Rightarrow>
          (case Apply_apply d plansFilename step s of
             (Inl r, s) \<Rightarrow> (Inl r, s)
           | (Inr _, s) \<Rightarrow> Apply_run d getenv step s))"

fun Apply_loop ::
  "'w DiggerExecutor \<Rightarrow> (string \<Rightarrow> string) \<Rightarrow> string option \<Rightarrow> Step list \<Rightarrow> 'w st
     \<Rightarrow> apply_result \<times> 'w st" where
  "Apply_loop d getenv plansFilename [] s = (Inr (True, None), s)"
| "Apply_loop d getenv plansFilename (step # steps) s =
     (case Apply_step d getenv plansFilename step s of
        (Inl r, s) \<Rightarrow> (r, s)
      | (Inr _, s) \<Rightarrow> Apply_loop d getenv plansFilename steps s)"

definition applySteps :: "'w DiggerExecutor \<Rightarrow> Step list" where
  "applySteps d =
     (case de_ApplyStage d of
        Some stage \<Rightarrow> Steps stage
      | None \<Rightarrow> [Step_of_Action ''init'', Step_of_Action ''apply''])"

definition Apply :: "'w DiggerExecutor \<Rightarrow> (string \<Rightarrow> string) \<Rightarrow> 'w st \<Rightarrow> apply_result \<times> 'w st" where
  "Apply d getenv s =
     (case Apply_retrieve d s of
        (Inl r, s) \<Rightarrow> (r, s)
      | (Inr plansFilename, s) \<Rightarrow> Apply_loop d getenv plansFilename (applySteps d) s)"

text \<open>A \<open>DiggerExecutor\<close> is an \<open>Executor\<close>.\<close>

definition as_Executor :: "'w DiggerExecutor \<Rightarrow> (string \<Rightarrow> string) \<Rightarrow> 'w Executor" where
  "as_Executor d getenv = \<lparr>ex_Plan = Plan d getenv, ex_Apply = Apply d getenv\<rparr>"

subsection \<open>Reading the trace\<close>


text \<open>The outputs of the latest call of the tool's plan operation in a trace.\<close>

fun last_PlanCalled :: "event list \<Rightarrow> (bool \<times> string \<times> string \<times> error option) option" where
  "last_PlanCalled [] = None"
| "last_PlanCalled (e # es) =
     (case last_PlanCalled es of
        Some r \<Rightarrow> Some r
      | None \<Rightarrow>
          (case e of
             PlanCalled args env isNonEmptyPlan stdout stderr err \<Rightarrow>
               Some (isNonEmptyPlan, stdout, stderr, err)
           | _ \<Rightarrow> None))"

section \<open>Sample collaborators\<close>

text \<open>
  Collaborators over a world that counts the calls made to them, for running the executor
  on concrete inputs. The tool runner, the lock and the reporter are given the error they
  are to return.
\<close>

definition sample_lock :: "bool \<Rightarrow> error option \<Rightarrow> nat ProjectLock" where
  "sample_lock acquired err =
     \<lparr>pl_Lock = (\<lambda>w. ((acquired, err), Suc w)),
      pl_ForceUnlock = (\<lambda>w. (None, Suc w)),
      pl_LockId = (\<lambda>w. (''org/repo#prod'', Suc w))\<rparr>"

definition sample_tool :: "error option \<Rightarrow> nat TerraformExecutor" where
  "sample_tool err =
     \<lparr>tf_Init = (\<lambda>args env w. (([], [], None), Suc w)),
      tf_Plan = (\<lambda>args env w.
        ((True, plan_sample, (if err = None then [] else ''Error: some failure''), err), Suc w)),
      tf_Apply = (\<lambda>args plansFilename env w.
        (([], (if err = None then [] else ''Error: some failure''), err), Suc w))\<rparr>"

definition sample_runner :: "nat CommandRun" where
  "sample_runner = \<lparr>cr_Run = (\<lambda>dir shell commands w. (([], [], None), Suc w))\<rparr>"

definition sample_reporter :: "error option \<Rightarrow> nat Reporter" where
  "sample_reporter commentErr = \<lparr>rp_Report = (\<lambda>content formatter w. (commentErr, Suc w))\<rparr>"

definition sample_project :: ProjectPathProvider where
  "sample_project =
     \<lparr>ProjectPath = ''/ws/app'', ProjectNamespace = ''org/repo'', ProjectName = ''prod''\<rparr>"

text \<open>An executor without stages (so the default stages apply) and without plan storage.\<close>

definition sample_digger :: "error option \<Rightarrow> error option \<Rightarrow> nat DiggerExecutor" where
  "sample_digger toolErr commentErr =
     \<lparr>de_ProjectNamespace = ''org/repo'',
      de_ProjectName = ''prod'',
      de_ProjectPath = ''/ws/app'',
      de_StateEnvVars = Map.empty,
      de_CommandEnvVars = Map.empty,
      de_ApplyStage = None,
      de_PlanStage = None,
      de_CommandRunner = sample_runner,
      de_TerraformExecutor = sample_tool toolErr,
      de_Reporter = sample_reporter commentErr,
      de_PlanStorage = None,
      de_PlanPathProvider = as_PlanPathProvider sample_project\<rparr>"

text \<open>A process environment that asks for the virtual environment.\<close>

definition sample_getenv :: "string \<Rightarrow> string" where
  "sample_getenv name =
     (if name = ''ACTIVATE_VENV'' then ''true''
      else if name = ''GITHUB_WORKSPACE'' then ''/ws''
      else [])"

definition sample_run_step :: Step where
  "sample_run_step = \<lparr>Action = ''run'', ExtraArgs = [], Value = ''make lint'', Shell = ''bash''\<rparr>"
section \<open>Properties of the string functions\<close>

lemma Index_range: "Index s sub = - 1 \<or> (0 \<le> Index s sub \<and> Index s sub + int (length sub) \<le> int (length s))"
proof (induction s)
  case Nil then show ?case by simp
next
  case (Cons c s)
  then show ?case by (auto simp: Let_def dest: prefix_length_le)
qed

lemma Index_prefix: "Index s sub \<noteq> - 1 \<Longrightarrow> prefix sub (drop (nat (Index s sub)) s)"
proof (induction s)
  case Nil then show ?case by (simp split: if_splits)
next
  case (Cons c s)
  show ?case
  proof (cases "prefix sub (c # s)")
    case True then show ?thesis by simp
  next
    case False
    with Cons.prems have ne: "Index s sub \<noteq> - 1" by (auto simp: Let_def split: if_splits)
    have ge: "0 \<le> Index s sub" using Index_range[of s sub] ne by auto
    from False ne have "Index (c # s) sub = Index s sub + 1" by (simp add: Let_def)
    moreover have "nat (Index s sub + 1) = Suc (nat (Index s sub))" using ge by simp
    ultimately show ?thesis using Cons.IH[OF ne] by simp
  qed
qed

lemma Index_none: "Index s sub = - 1 \<longleftrightarrow> \<not> sublist sub s"
proof (induction s)
  case Nil then show ?case by auto
next
  case (Cons c s)
  have r: "Index s sub = - 1 \<or> 0 \<le> Index s sub" using Index_range[of s sub] by auto
  show ?case using Cons r by (auto simp: Let_def sublist_Cons_right)
qed

lemma LastIndex_range: "LastIndex s sub = - 1 \<or> (0 \<le> LastIndex s sub \<and> LastIndex s sub + int (length sub) \<le> int (length s))"
proof (induction s)
  case Nil then show ?case by simp
next
  case (Cons c s)
  then show ?case by (auto simp: Let_def dest: prefix_length_le)
qed

lemma LastIndex_none: "LastIndex s sub = - 1 \<longleftrightarrow> \<not> sublist sub s"
proof (induction s)
  case Nil then show ?case by auto
next
  case (Cons c s)
  have r: "LastIndex s sub = - 1 \<or> 0 \<le> LastIndex s sub" using LastIndex_range[of s sub] by auto
  show ?case using Cons r by (auto simp: Let_def sublist_Cons_right)
qed

lemma LastIndex_prefix: "LastIndex s sub \<noteq> - 1 \<Longrightarrow> prefix sub (drop (nat (LastIndex s sub)) s)"
proof (induction s)
  case Nil then show ?case by (simp split: if_splits)
next
  case (Cons c s)
  show ?case
  proof (cases "LastIndex s sub = - 1")
    case True with Cons.prems show ?thesis by (auto simp: Let_def split: if_splits)
  next
    case False
    have ge: "0 \<le> LastIndex s sub" using LastIndex_range[of s sub] False by auto
    from False have "LastIndex (c # s) sub = LastIndex s sub + 1" by (simp add: Let_def)
    moreover have "nat (LastIndex s sub + 1) = Suc (nat (LastIndex s sub))" using ge by simp
    ultimately show ?thesis using Cons.IH[OF False] by simp
  qed
qed

lemma slice_ok: "0 \<le> lo \<Longrightarrow> lo \<le> hi \<Longrightarrow> hi \<le> int (length s) \<Longrightarrow> slice s lo hi = Inr (take (nat (hi - lo)) (drop (nat lo) s))"
  by (simp add: slice_def)

lemma sublist_take_drop: "sublist (take n (drop m s)) s"
  by (meson sublist_drop sublist_order.order_trans sublist_take)

lemma trim_marker_ok: "\<exists>t. trim_marker stdout = Inr t \<and> suffix t stdout"
proof -
  have "Index stdout marker = - 1 \<or> (0 \<le> Index stdout marker \<and> Index stdout marker \<le> int (length stdout))"
    using Index_range[of stdout marker] by auto
  then show ?thesis
    by (auto simp: trim_marker_def Let_def slice_def suffix_drop)
qed


lemma plan_regex_match: "plan_regex s = [] \<or> (\<exists>m. plan_regex s = [m] \<and> sublist m s)"
proof (induction s)
  case Nil then show ?case by simp
next
  case (Cons c s)
  show ?case
  proof (cases "prefix dashes (c # s) \<and> rest_of_line (drop (length dashes) (c # s)) \<noteq> []")
    case True
    then obtain zs where zs: "c # s = dashes @ zs" by (auto simp: prefix_def)
    have "prefix (rest_of_line zs) zs"
      unfolding rest_of_line_def by (metis prefixI takeWhile_dropWhile_id)
    then have "prefix (dashes @ rest_of_line zs) (c # s)" using zs by simp
    then have "sublist (dashes @ rest_of_line (drop (length dashes) (c # s))) (c # s)"
      using zs by (simp add: prefix_imp_sublist)
    with True show ?thesis by simp
  next
    case False
    then have "plan_regex (c # s) = plan_regex s" by auto
    with Cons show ?thesis by (auto simp: sublist_Cons_right)
  qed
qed

lemma plan_regex_in_input: "match_in_input plan_regex"
  unfolding match_in_input_def using plan_regex_match by (metis nth_Cons_0)

lemma end_in_range:
  assumes "sublist m s"
  shows "0 \<le> LastIndex s m \<and> LastIndex s m + int (length m) \<le> int (length s)"
  using assms LastIndex_range[of s m] LastIndex_none[of s m] by auto

lemma start_in_range:
  "0 \<le> (if Index s a = - 1 then 0 else Index s a) \<and> (if Index s a = - 1 then 0 else Index s a) \<le> int (length s)"
  using Index_range[of s a] by auto

lemma cleanup_error_eq:
  assumes "trim_marker stdout = Inr t"
  shows "cleanupTerraformOutput ne (Some e) stdout stderr regexStr =
     Inr (if stderr \<noteq> [] then stderr else if t \<noteq> [] then t else [])"
  using assms by (simp add: cleanupTerraformOutput_def)

lemma cleanup_match_eq:
  assumes "trim_marker stdout = Inr t" and "regex t \<noteq> []"
  shows "cleanupTerraformOutput ne None stdout stderr (Some (Compiles regex)) =
     (let m = regex t ! 0;
          sp = (if Index t (anchor ne) = - 1 then 0 else Index t (anchor ne));
          e = LastIndex t m + int (length m)
      in slice t sp (if e \<le> sp then int (length t) else e))"
  using assms by (auto simp: cleanupTerraformOutput_def Let_def)

lemma cleanup_nomatch_eq:
  assumes "trim_marker stdout = Inr t"
    and "regexStr = None \<or> (\<exists>regex. regexStr = Some (Compiles regex) \<and> regex t = [])"
  shows "cleanupTerraformOutput ne None stdout stderr regexStr =
     slice t (if Index t (anchor ne) = - 1 then 0 else Index t (anchor ne)) (int (length t))"
  using assms start_in_range[of t "anchor ne"]
  by (auto simp: cleanupTerraformOutput_def Let_def slice_def)

lemma cleanup_noparse_eq:
  assumes "trim_marker stdout = Inr t"
  shows "cleanupTerraformOutput ne None stdout stderr (Some DoesNotParse) = Inl RegexpDoesNotParse"
  using assms by (simp add: cleanupTerraformOutput_def Let_def)

lemma cleanup_no_error:
  assumes "pattern_compiles regexStr"
    and "trim_marker stdout = Inr t"
  shows "\<exists>lo hi. 0 \<le> lo \<and> lo \<le> hi \<and> hi \<le> int (length t) \<and>
           cleanupTerraformOutput ne None stdout stderr regexStr = Inr (take (nat (hi - lo)) (drop (nat lo) t))"
proof -
  define startPos where "startPos = (if Index t (anchor ne) = - 1 then 0 else Index t (anchor ne))"
  have sp: "0 \<le> startPos \<and> startPos \<le> int (length t)"
    unfolding startPos_def by (rule start_in_range)
  show ?thesis
  proof (cases "regexStr = None \<or> (\<exists>regex. regexStr = Some (Compiles regex) \<and> regex t = [])")
    case True
    from cleanup_nomatch_eq[OF assms(2) True, of ne stderr]
    have "cleanupTerraformOutput ne None stdout stderr regexStr = slice t startPos (int (length t))"
      by (simp add: startPos_def)
    then show ?thesis using sp
      by (intro exI[of _ startPos] exI[of _ "int (length t)"]) (simp add: slice_def)
  next
    case False
    with assms(1) obtain regex where r: "regexStr = Some (Compiles regex)" "regex t \<noteq> []"
      "match_in_input regex"
      by (cases regexStr rule: pattern_compiles.cases) auto
    then have "sublist (regex t ! 0) t" by (auto simp: match_in_input_def)
    from end_in_range[OF this]
    have e: "LastIndex t (regex t ! 0) + int (length (regex t ! 0)) \<le> int (length t)" by simp
    define endPos where "endPos =
      (if LastIndex t (regex t ! 0) + int (length (regex t ! 0)) \<le> startPos then int (length t)
       else LastIndex t (regex t ! 0) + int (length (regex t ! 0)))"
    have ep: "startPos \<le> endPos \<and> endPos \<le> int (length t)"
      using sp e by (auto simp: endPos_def)
    from cleanup_match_eq[of stdout t regex, OF assms(2) r(2), of ne stderr] r(1)
    have "cleanupTerraformOutput ne None stdout stderr regexStr = slice t startPos endPos"
      by (simp add: Let_def startPos_def endPos_def)
    then show ?thesis using sp ep
      by (intro exI[of _ startPos] exI[of _ endPos]) (simp add: slice_def)
  qed
qed

text \<open>
  Claim C1, as amended. When the error is set, or when the pattern is absent or compiles
  (to a matcher whose matches are pieces of the searched string, as the regular expression
  library gives them), \<open>cleanupTerraformOutput\<close> returns: no slice is out of range and
  nothing panics. The marker trim of step 1 yields a suffix \<open>t\<close> of \<open>stdout\<close>, and the
  result is a contiguous piece of \<open>t\<close>, or \<open>stderr\<close>, or the empty string. Nothing is
  assumed about the anchor or the pattern occurring in \<open>stdout\<close>.
\<close>

theorem cleanupTerraformOutput_total:
  assumes "planError \<noteq> None \<or> pattern_compiles regexStr"
  shows "\<exists>t out. trim_marker stdout = Inr t \<and> suffix t stdout \<and>
           cleanupTerraformOutput nonEmptyOutput planError stdout stderr regexStr = Inr out \<and>
           (sublist out t \<or> out = stderr \<or> out = [])"
proof -
  obtain t where t: "trim_marker stdout = Inr t" "suffix t stdout"
    using trim_marker_ok by blast
  show ?thesis
  proof (cases planError)
    case None
    with assms have "pattern_compiles regexStr" by simp
    from cleanup_no_error[OF this t(1), of nonEmptyOutput stderr] None t
    show ?thesis by (auto simp: sublist_take_drop)
  next
    case (Some e)
    then have "cleanupTerraformOutput nonEmptyOutput planError stdout stderr regexStr =
        Inr (if stderr \<noteq> [] then stderr else if t \<noteq> [] then t else [])"
      using cleanup_error_eq[OF t(1)] by simp
    then show ?thesis using t by auto
  qed
qed

text \<open>The amended claim C1 on the plan pattern, with a nil error.\<close>

theorem cleanupTerraformOutput_total_witness:
  "pattern_compiles (Some (Compiles plan_regex)) \<and>
   (\<exists>t out. trim_marker ''Terraform v1.5 No changes.'' = Inr t \<and>
      suffix t ''Terraform v1.5 No changes.'' \<and>
      cleanupTerraformOutput False None ''Terraform v1.5 No changes.'' ''warn'' (Some (Compiles plan_regex))
        = Inr out \<and>
      (sublist out t \<or> out = ''warn'' \<or> out = []))"
  using cleanupTerraformOutput_total
          [of None "Some (Compiles plan_regex)" "''Terraform v1.5 No changes.''" False "''warn''"]
        plan_regex_in_input
  by simp

text \<open>
  Claim C1 as stated fails: a pattern that does not parse, such as \<open>(\<close>, makes
  \<open>regexp.MustCompile\<close> panic when the error is nil, whatever the outputs are; here they
  are empty.
\<close>

theorem cleanupTerraformOutput_noparse_counterexample:
  "cleanupTerraformOutput False None [] [] (Some DoesNotParse) = Inl RegexpDoesNotParse"
  by (simp add: cleanupTerraformOutput_def trim_marker_def marker_def)
section \<open>Properties of the plan file derivation\<close>

lemma ReplaceAll_no_hash:
  "CHR ''#'' \<notin> set s \<Longrightarrow> CHR ''#'' \<notin> set (ReplaceAll_slash_colon s)"
  by (auto simp: ReplaceAll_slash_colon_def)

lemma ReplaceAll_inj:
  "CHR '':'' \<notin> set s \<Longrightarrow> CHR '':'' \<notin> set s' \<Longrightarrow>
   ReplaceAll_slash_colon s = ReplaceAll_slash_colon s' \<Longrightarrow> s = s'"
proof (induction s arbitrary: s')
  case Nil then show ?case by (simp add: ReplaceAll_slash_colon_def)
next
  case (Cons c s)
  then obtain c' r where s': "s' = c' # r" by (cases s') (auto simp: ReplaceAll_slash_colon_def)
  with Cons.prems have "c = c'" by (auto simp: ReplaceAll_slash_colon_def split: if_splits)
  moreover have "s = r" using Cons.IH[of r] Cons.prems s' by (auto simp: ReplaceAll_slash_colon_def)
  ultimately show ?case using s' by simp
qed

lemma split_at_first:
  assumes "x \<notin> set a" "x \<notin> set b" "a @ x # u = b @ x # v"
  shows "a = b \<and> u = v"
  using assms
proof (induction a arbitrary: b)
  case Nil then show ?case by (cases b) auto
next
  case (Cons c a) then show ?case by (cases b) auto
qed

lemma PlanFileName_inj:
  assumes "CHR '':'' \<notin> set (ProjectNamespace d)" "CHR ''#'' \<notin> set (ProjectNamespace d)"
    and "CHR '':'' \<notin> set (ProjectNamespace d')" "CHR ''#'' \<notin> set (ProjectNamespace d')"
    and "PlanFileName d = PlanFileName d'"
  shows "ProjectNamespace d = ProjectNamespace d' \<and> ProjectName d = ProjectName d'"
proof -
  from assms(5) have "ReplaceAll_slash_colon (ProjectNamespace d) @ CHR ''#'' # (ProjectName d @ ''.tfplan'')
      = ReplaceAll_slash_colon (ProjectNamespace d') @ CHR ''#'' # (ProjectName d' @ ''.tfplan'')"
    by (simp add: PlanFileName_def)
  from split_at_first[OF ReplaceAll_no_hash[OF assms(2)] ReplaceAll_no_hash[OF assms(4)] this]
  have "ReplaceAll_slash_colon (ProjectNamespace d) = ReplaceAll_slash_colon (ProjectNamespace d')"
    and "ProjectName d = ProjectName d'" by auto
  with ReplaceAll_inj[OF assms(1,3)] show ?thesis by simp
qed

lemma split_slash_not_Nil: "split_slash s \<noteq> []"
  by (induction s) (auto split: list.splits)

lemma split_slash_element: "CHR ''/'' \<notin> set f \<Longrightarrow> split_slash f = [f]"
  by (induction f) auto

lemma split_slash_snoc:
  "CHR ''/'' \<notin> set f \<Longrightarrow> split_slash (p @ CHR ''/'' # f) = split_slash p @ [f]"
proof (induction p)
  case Nil
  then show ?case by (simp add: split_slash_element)
next
  case (Cons c p)
  obtain e es where "split_slash p = e # es"
    using split_slash_not_Nil[of p] by (cases "split_slash p") auto
  with Cons show ?case by simp
qed

lemma clean_elems_snoc:
  "f \<noteq> [] \<Longrightarrow> f \<noteq> ''.'' \<Longrightarrow> f \<noteq> ''..'' \<Longrightarrow>
   \<exists>xs. clean_elems rooted (es @ [f]) out dotdot = xs @ [f]"
  by (induction es arbitrary: out dotdot) auto

lemma join_slash_snoc:
  "join_slash (xs @ [f]) = (if xs = [] then f else join_slash xs @ CHR ''/'' # f)"
  by (induction xs rule: join_slash.induct) auto

text \<open>Joining a path with one ordinary element leaves that element at the end, after a
  slash or alone.\<close>

lemma path_Join_element:
  assumes "CHR ''/'' \<notin> set f" "f \<noteq> []" "f \<noteq> ''.''" "f \<noteq> ''..''"
  shows "\<exists>pre. path_Join [p, f] = pre @ f \<and> (pre = [] \<or> last pre = CHR ''/'')"
proof (cases "p = []")
  case True
  from assms(1,2) have "hd f \<noteq> CHR ''/''" by (cases f) auto
  with True assms have "path_Join [p, f] = f"
    by (simp add: path_Join_def Clean_def split_slash_element)
  then show ?thesis by simp
next
  case False
  obtain xs where xs: "clean_elems (hd p = CHR ''/'') (split_slash p @ [f]) [] 0 = xs @ [f]"
    using clean_elems_snoc[OF assms(2-4)] by blast
  from False have hd: "hd (p @ CHR ''/'' # f) = hd p" by simp
  from False assms(2) have "path_Join [p, f] = Clean (p @ CHR ''/'' # f)"
    by (simp add: path_Join_def)
  also have "\<dots> = (if hd p = CHR ''/'' then CHR ''/'' # join_slash (xs @ [f])
                    else join_slash (xs @ [f]))"
  proof (cases "hd p = CHR ''/''")
    case True
    with xs have "clean_elems True (split_slash p @ [f]) [] 0 = xs @ [f]" by simp
    with True assms(1) hd show ?thesis by (simp add: Clean_def split_slash_snoc)
  next
    case False
    with xs have "clean_elems False (split_slash p @ [f]) [] 0 = xs @ [f]" by simp
    with False assms(1) hd show ?thesis by (simp add: Clean_def split_slash_snoc)
  qed
  finally have j: "path_Join [p, f] = (if hd p = CHR ''/'' then CHR ''/'' # join_slash (xs @ [f])
                    else join_slash (xs @ [f]))" .
  show ?thesis
  proof (cases "xs = []")
    case True
    with j show ?thesis
      by (cases "hd p = CHR ''/''") (auto intro: exI[of _ "''/''"] exI[of _ "[]"])
  next
    case f: False
    show ?thesis
    proof (cases "hd p = CHR ''/''")
      case True
      with j f have "path_Join [p, f] = (CHR ''/'' # join_slash xs @ ''/'') @ f"
        by (simp add: join_slash_snoc)
      then show ?thesis by (intro exI[of _ "CHR ''/'' # join_slash xs @ ''/''"]) simp
    next
      case False
      with j f have "path_Join [p, f] = (join_slash xs @ ''/'') @ f"
        by (simp add: join_slash_snoc)
      then show ?thesis by (intro exI[of _ "join_slash xs @ ''/''"]) simp
    qed
  qed
qed

lemma after_last_slash:
  assumes "pre = [] \<or> last pre = CHR ''/''" and "CHR ''/'' \<notin> set f"
  shows "rev (takeWhile (\<lambda>c. c \<noteq> CHR ''/'') (rev (pre @ f))) = f"
proof -
  from assms(2) have all: "takeWhile (\<lambda>c. c \<noteq> CHR ''/'') (rev f) = rev f"
    by (auto simp: takeWhile_eq_all_conv)
  show ?thesis
  proof (cases "pre = []")
    case True
    show ?thesis unfolding True by (simp only: append_Nil all rev_rev_ident)
  next
    case False
    with assms(1) obtain q where q: "pre = q @ [CHR ''/'']"
      by (metis append_butlast_last_id)
    have "takeWhile (\<lambda>c. c \<noteq> CHR ''/'') (rev f @ CHR ''/'' # rev q) = rev f"
      using assms(2) by (induction f rule: rev_induct) auto
    with q show ?thesis by simp
  qed
qed

lemma path_Join_element_inj:
  assumes "CHR ''/'' \<notin> set f" "f \<noteq> []" "f \<noteq> ''.''" "f \<noteq> ''..''"
    and "CHR ''/'' \<notin> set f'" "f' \<noteq> []" "f' \<noteq> ''.''" "f' \<noteq> ''..''"
    and "path_Join [p, f] = path_Join [p', f']"
  shows "f = f'"
proof -
  obtain pre where a: "path_Join [p, f] = pre @ f" "pre = [] \<or> last pre = CHR ''/''"
    using path_Join_element[OF assms(1-4)] by blast
  obtain pre' where b: "path_Join [p', f'] = pre' @ f'" "pre' = [] \<or> last pre' = CHR ''/''"
    using path_Join_element[OF assms(5-8)] by blast
  have "f = rev (takeWhile (\<lambda>c. c \<noteq> CHR ''/'') (rev (path_Join [p, f])))"
    unfolding a(1) using after_last_slash[OF a(2) assms(1)] by (rule sym)
  also have "\<dots> = rev (takeWhile (\<lambda>c. c \<noteq> CHR ''/'') (rev (path_Join [p', f'])))"
    by (simp only: assms(9))
  also have "\<dots> = f'"
    unfolding b(1) using after_last_slash[OF b(2) assms(5)] .
  finally show ?thesis .
qed

lemma PlanFileName_element:
  assumes "CHR ''/'' \<notin> set (ProjectName d)"
  shows "CHR ''/'' \<notin> set (PlanFileName d)" "PlanFileName d \<noteq> []"
    "PlanFileName d \<noteq> ''.''" "PlanFileName d \<noteq> ''..''"
proof -
  show "CHR ''/'' \<notin> set (PlanFileName d)"
    using assms by (auto simp: PlanFileName_def ReplaceAll_slash_colon_def)
  have "length (PlanFileName d) \<ge> 8" by (simp add: PlanFileName_def)
  then show "PlanFileName d \<noteq> []" "PlanFileName d \<noteq> ''.''" "PlanFileName d \<noteq> ''..''"
    by auto
qed

lemma plan_paths_inj:
  assumes "CHR ''/'' \<notin> set (ProjectName d)" "CHR ''/'' \<notin> set (ProjectName d')"
    and "CHR '':'' \<notin> set (ProjectNamespace d)" "CHR ''#'' \<notin> set (ProjectNamespace d)"
    and "CHR '':'' \<notin> set (ProjectNamespace d')" "CHR ''#'' \<notin> set (ProjectNamespace d')"
    and "LocalPlanFilePath d = LocalPlanFilePath d' \<or> StoredPlanFilePath d = StoredPlanFilePath d'"
  shows "ProjectNamespace d = ProjectNamespace d' \<and> ProjectName d = ProjectName d'"
proof -
  from assms(7) have "PlanFileName d = PlanFileName d'"
    unfolding LocalPlanFilePath_def StoredPlanFilePath_def
    using path_Join_element_inj[OF PlanFileName_element[OF assms(1)] PlanFileName_element[OF assms(2)]]
    by blast
  with PlanFileName_inj[OF assms(3-6)] show ?thesis by simp
qed

text \<open>
  Claim C4, as amended. The plan file name is the namespace with every slash replaced by a
  colon, then \<open>#\<close>, the project name and \<open>.tfplan\<close>; the local path is \<open>path.Join\<close> of
  the project path and that name, the storage key \<open>path.Join\<close> of the namespace and that
  name. On reasonable inputs, that is for two projects whose names contain no slash and
  whose namespaces contain neither a colon nor \<open>#\<close>, different (namespace, name) pairs
  give different local paths, whatever the project paths are, and different storage keys.
  Namespace \<open>org/repo\<close> with name \<open>prod\<close> gives \<open>org:repo#prod.tfplan\<close>.
\<close>

theorem plan_path_derivation:
  "PlanFileName d =
     map (\<lambda>c. if c = CHR ''/'' then CHR '':'' else c) (ProjectNamespace d)
       @ ''#'' @ ProjectName d @ ''.tfplan'' \<and>
   LocalPlanFilePath d = path_Join [ProjectPath d, PlanFileName d] \<and>
   StoredPlanFilePath d = path_Join [ProjectNamespace d, PlanFileName d] \<and>
   (CHR ''/'' \<notin> set (ProjectName d) \<and> CHR ''/'' \<notin> set (ProjectName d') \<and>
    CHR '':'' \<notin> set (ProjectNamespace d) \<and> CHR ''#'' \<notin> set (ProjectNamespace d) \<and>
    CHR '':'' \<notin> set (ProjectNamespace d') \<and> CHR ''#'' \<notin> set (ProjectNamespace d') \<and>
    (ProjectNamespace d, ProjectName d) \<noteq> (ProjectNamespace d', ProjectName d')
      \<longrightarrow> LocalPlanFilePath d \<noteq> LocalPlanFilePath d' \<and>
          StoredPlanFilePath d \<noteq> StoredPlanFilePath d') \<and>
   PlanFileName \<lparr>ProjectPath = p, ProjectNamespace = ''org/repo'', ProjectName = ''prod''\<rparr>
     = ''org:repo#prod.tfplan''"
proof -
  have "PlanFileName \<lparr>ProjectPath = p, ProjectNamespace = ''org/repo'', ProjectName = ''prod''\<rparr>
     = ''org:repo#prod.tfplan''"
    by (simp add: PlanFileName_def ReplaceAll_slash_colon_def)
  moreover have "PlanFileName d =
     map (\<lambda>c. if c = CHR ''/'' then CHR '':'' else c) (ProjectNamespace d)
       @ ''#'' @ ProjectName d @ ''.tfplan''"
    by (simp add: PlanFileName_def ReplaceAll_slash_colon_def)
  moreover have "CHR ''/'' \<notin> set (ProjectName d) \<and> CHR ''/'' \<notin> set (ProjectName d') \<and>
    CHR '':'' \<notin> set (ProjectNamespace d) \<and> CHR ''#'' \<notin> set (ProjectNamespace d) \<and>
    CHR '':'' \<notin> set (ProjectNamespace d') \<and> CHR ''#'' \<notin> set (ProjectNamespace d') \<and>
    (ProjectNamespace d, ProjectName d) \<noteq> (ProjectNamespace d', ProjectName d')
      \<longrightarrow> LocalPlanFilePath d \<noteq> LocalPlanFilePath d' \<and>
          StoredPlanFilePath d \<noteq> StoredPlanFilePath d'"
    using plan_paths_inj[of d d'] by blast
  ultimately show ?thesis
    by (simp add: LocalPlanFilePath_def StoredPlanFilePath_def)
qed

text \<open>The amended claim C4 on two projects of one repository, with the joined paths
  evaluated.\<close>

theorem plan_path_derivation_witness:
  "PlanFileName \<lparr>ProjectPath = ''/ws/app'', ProjectNamespace = ''org/repo'', ProjectName = ''prod''\<rparr>
     = ''org:repo#prod.tfplan'' \<and>
   LocalPlanFilePath \<lparr>ProjectPath = ''/ws/app'', ProjectNamespace = ''org/repo'', ProjectName = ''prod''\<rparr>
     = ''/ws/app/org:repo#prod.tfplan'' \<and>
   StoredPlanFilePath \<lparr>ProjectPath = ''/ws/app'', ProjectNamespace = ''org/repo'', ProjectName = ''prod''\<rparr>
     = ''org/repo/org:repo#prod.tfplan'' \<and>
   (''org/repo'', ''prod'') \<noteq> (''org/repo'', ''staging'') \<and>
   LocalPlanFilePath \<lparr>ProjectPath = ''/ws/app'', ProjectNamespace = ''org/repo'', ProjectName = ''prod''\<rparr>
     \<noteq> LocalPlanFilePath \<lparr>ProjectPath = ''/ws/app'', ProjectNamespace = ''org/repo'', ProjectName = ''staging''\<rparr> \<and>
   StoredPlanFilePath \<lparr>ProjectPath = ''/ws/app'', ProjectNamespace = ''org/repo'', ProjectName = ''prod''\<rparr>
     \<noteq> StoredPlanFilePath \<lparr>ProjectPath = ''/ws/app'', ProjectNamespace = ''org/repo'', ProjectName = ''staging''\<rparr>"
proof -
  let ?d = "\<lparr>ProjectPath = ''/ws/app'', ProjectNamespace = ''org/repo'', ProjectName = ''prod''\<rparr>"
  let ?d' = "\<lparr>ProjectPath = ''/ws/app'', ProjectNamespace = ''org/repo'', ProjectName = ''staging''\<rparr>"
  have n: "PlanFileName ?d = ''org:repo#prod.tfplan''"
    by (simp add: PlanFileName_def ReplaceAll_slash_colon_def)
  have l: "path_Join [''/ws/app'', ''org:repo#prod.tfplan''] = ''/ws/app/org:repo#prod.tfplan''"
    by (simp add: path_Join_def Clean_def)
  have k: "path_Join [''org/repo'', ''org:repo#prod.tfplan''] = ''org/repo/org:repo#prod.tfplan''"
    by (simp add: path_Join_def Clean_def)
  have h: "CHR ''/'' \<notin> set (ProjectName ?d) \<and> CHR ''/'' \<notin> set (ProjectName ?d') \<and>
      CHR '':'' \<notin> set (ProjectNamespace ?d) \<and> CHR ''#'' \<notin> set (ProjectNamespace ?d) \<and>
      CHR '':'' \<notin> set (ProjectNamespace ?d') \<and> CHR ''#'' \<notin> set (ProjectNamespace ?d') \<and>
      (ProjectNamespace ?d, ProjectName ?d) \<noteq> (ProjectNamespace ?d', ProjectName ?d')"
    by simp
  from plan_path_derivation [of ?d ?d' "''/ws/app''"] h
  have "LocalPlanFilePath ?d = path_Join [ProjectPath ?d, PlanFileName ?d]"
    and "StoredPlanFilePath ?d = path_Join [ProjectNamespace ?d, PlanFileName ?d]"
    and "LocalPlanFilePath ?d \<noteq> LocalPlanFilePath ?d'"
    and "StoredPlanFilePath ?d \<noteq> StoredPlanFilePath ?d'"
    by blast+
  then show ?thesis using n l k by simp
qed

text \<open>
  Claim C4 as stated fails, in three ways. The names \<open>a/../prod\<close> and \<open>b/../prod\<close> in
  namespace \<open>org/repo\<close> give one local path and one storage key, because \<open>path.Join\<close>
  removes the element before \<open>..\<close>. The namespaces \<open>a/b\<close> and \<open>a:b\<close> give one file
  name, hence one local path in one project directory, and the namespaces \<open>.:v/..\<close> and
  \<open>./v/..\<close> one storage key as well. The namespace \<open>a#/../a\<close> with name \<open>n\<close> and the
  namespace \<open>a\<close> with name \<open>:..:a#n\<close> give one local path and one storage key.
\<close>

theorem plan_path_collision_counterexample:
  "(''org/repo'', ''a/../prod'') \<noteq> (''org/repo'', ''b/../prod'') \<and>
   LocalPlanFilePath \<lparr>ProjectPath = ''/ws'', ProjectNamespace = ''org/repo'', ProjectName = ''a/../prod''\<rparr>
     = LocalPlanFilePath \<lparr>ProjectPath = ''/ws'', ProjectNamespace = ''org/repo'', ProjectName = ''b/../prod''\<rparr> \<and>
   StoredPlanFilePath \<lparr>ProjectPath = ''/ws'', ProjectNamespace = ''org/repo'', ProjectName = ''a/../prod''\<rparr>
     = StoredPlanFilePath \<lparr>ProjectPath = ''/ws'', ProjectNamespace = ''org/repo'', ProjectName = ''b/../prod''\<rparr> \<and>
   (''a/b'', ''n'') \<noteq> (''a:b'', ''n'') \<and>
   LocalPlanFilePath \<lparr>ProjectPath = ''/ws'', ProjectNamespace = ''a/b'', ProjectName = ''n''\<rparr>
     = LocalPlanFilePath \<lparr>ProjectPath = ''/ws'', ProjectNamespace = ''a:b'', ProjectName = ''n''\<rparr> \<and>
   (''.:v/..'', ''n'') \<noteq> (''./v/..'', ''n'') \<and>
   LocalPlanFilePath \<lparr>ProjectPath = ''/ws'', ProjectNamespace = ''.:v/..'', ProjectName = ''n''\<rparr>
     = LocalPlanFilePath \<lparr>ProjectPath = ''/ws'', ProjectNamespace = ''./v/..'', ProjectName = ''n''\<rparr> \<and>
   StoredPlanFilePath \<lparr>ProjectPath = ''/ws'', ProjectNamespace = ''.:v/..'', ProjectName = ''n''\<rparr>
     = StoredPlanFilePath \<lparr>ProjectPath = ''/ws'', ProjectNamespace = ''./v/..'', ProjectName = ''n''\<rparr> \<and>
   (''a#/../a'', ''n'') \<noteq> (''a'', '':..:a#n'') \<and>
   LocalPlanFilePath \<lparr>ProjectPath = ''/ws'', ProjectNamespace = ''a#/../a'', ProjectName = ''n''\<rparr>
     = LocalPlanFilePath \<lparr>ProjectPath = ''/ws'', ProjectNamespace = ''a'', ProjectName = '':..:a#n''\<rparr> \<and>
   StoredPlanFilePath \<lparr>ProjectPath = ''/ws'', ProjectNamespace = ''a#/../a'', ProjectName = ''n''\<rparr>
     = StoredPlanFilePath \<lparr>ProjectPath = ''/ws'', ProjectNamespace = ''a'', ProjectName = '':..:a#n''\<rparr>"
  by (simp add: PlanFileName_def ReplaceAll_slash_colon_def LocalPlanFilePath_def
      StoredPlanFilePath_def path_Join_def Clean_def)
section \<open>Properties of the sanitizer\<close>

lemma Index_prefix_0: "prefix sub s \<Longrightarrow> Index s sub = 0"
  by (cases s) auto

lemma LastIndex_last:
  "prefix sub (drop j s) \<Longrightarrow> j \<le> length s \<Longrightarrow> int j \<le> LastIndex s sub"
proof (induction s arbitrary: j)
  case Nil then show ?case by auto
next
  case (Cons c s)
  have r: "LastIndex s sub = - 1 \<or> 0 \<le> LastIndex s sub" using LastIndex_range[of s sub] by auto
  show ?case
  proof (cases j)
    case 0
    with Cons.prems have "prefix sub (c # s)" by simp
    then show ?thesis using 0 r by (auto simp: Let_def)
  next
    case (Suc k)
    with Cons.prems have "prefix sub (drop k s)" "k \<le> length s" by auto
    from Cons.IH[OF this] have "int k \<le> LastIndex s sub" .
    then show ?thesis using Suc by (auto simp: Let_def)
  qed
qed

text \<open>
  Claim C5, as amended. When the error is nil and the supplied pattern has a match in the
  marker-trimmed output \<open>t\<close>, the sanitizer takes the text of the leftmost match (the
  first submatch that \<open>FindStringSubmatch\<close> returns) and puts the end position just past
  the last occurrence of that text in \<open>t\<close>: \<open>LastIndex\<close> is an occurrence and no
  occurrence starts later. The result runs from the start position to that end position when
  the end lies strictly after the start, and to the end of \<open>t\<close> otherwise.
\<close>

theorem cleanup_end_position:
  assumes "match_in_input regex"
    and "trim_marker stdout = Inr t"
    and "regex t \<noteq> []"
  shows "0 \<le> LastIndex t (regex t ! 0) \<and>
         prefix (regex t ! 0) (drop (nat (LastIndex t (regex t ! 0))) t) \<and>
         (\<forall>j\<le>length t. prefix (regex t ! 0) (drop j t) \<longrightarrow> int j \<le> LastIndex t (regex t ! 0)) \<and>
         cleanupTerraformOutput ne None stdout stderr (Some (Compiles regex)) =
           Inr (let sp = (if Index t (anchor ne) = - 1 then 0 else Index t (anchor ne));
                    e = LastIndex t (regex t ! 0) + int (length (regex t ! 0))
                in if e \<le> sp then drop (nat sp) t else take (nat (e - sp)) (drop (nat sp) t))"
proof -
  let ?m = "regex t ! 0"
  from assms(1,3) have sub: "sublist ?m t" by (auto simp: match_in_input_def)
  have ne1: "LastIndex t ?m \<noteq> - 1" using sub LastIndex_none by blast
  have rng: "0 \<le> LastIndex t ?m \<and> LastIndex t ?m + int (length ?m) \<le> int (length t)"
    using end_in_range[OF sub] .
  have sp: "0 \<le> (if Index t (anchor ne) = - 1 then 0 else Index t (anchor ne)) \<and>
            (if Index t (anchor ne) = - 1 then 0 else Index t (anchor ne)) \<le> int (length t)"
    by (rule start_in_range)
  have "cleanupTerraformOutput ne None stdout stderr (Some (Compiles regex)) =
     Inr (let sp = (if Index t (anchor ne) = - 1 then 0 else Index t (anchor ne));
              e = LastIndex t ?m + int (length ?m)
          in if e \<le> sp then drop (nat sp) t else take (nat (e - sp)) (drop (nat sp) t))"
    unfolding cleanup_match_eq[of stdout t regex, OF assms(2,3)] using rng sp
    by (auto simp: Let_def slice_def)
  then show ?thesis
    using rng LastIndex_prefix[OF ne1] LastIndex_last[of ?m _ t] by blast
qed

lemma length_dashes: "length dashes = 33"
  by (simp add: dashes_def dash_def)

lemma two_separators_trim: "trim_marker two_separators = Inr two_separators"
  by (simp add: trim_marker_def marker_def two_separators_def dashes_def dash_def)

lemma two_separators_anchor: "Index two_separators (anchor False) = - 1"
  by (simp add: anchor_def two_separators_def dashes_def dash_def)

lemma two_separators_match: "plan_regex two_separators = [dashes @ ''a'']"
  by (simp add: two_separators_def dashes_def dash_def rest_of_line_def)

lemma two_separators_last: "LastIndex two_separators (dashes @ ''a'') = 0"
  by (simp add: two_separators_def dashes_def dash_def)

text \<open>
  Claim C5 as stated fails: in \<open>two_separators\<close> the pattern matches the bytes 35 to 69,
  the end of the output, but the sanitizer stops after byte 34, the end of the only
  occurrence of the first match's text.
\<close>

theorem cleanup_last_match_counterexample:
  "plan_pattern_matches two_separators 35 69 \<and> length two_separators = 69 \<and>
   cleanupTerraformPlan False None two_separators [] = Inr (dashes @ ''a'') \<and>
   length (dashes @ ''a'') = 34"
proof -
  have m: "plan_pattern_matches two_separators 35 69"
    by (simp add: plan_pattern_matches_def two_separators_def dashes_def dash_def)
  have l: "length two_separators = 69" "length (dashes @ ''a'') = 34"
    by (simp_all add: two_separators_def dashes_def dash_def)
  have ne: "plan_regex two_separators \<noteq> []" by (simp add: two_separators_match)
  have "cleanupTerraformPlan False None two_separators [] = slice two_separators 0 34"
    unfolding cleanupTerraformPlan_def
    by (simp add: cleanup_match_eq[of two_separators two_separators plan_regex, OF two_separators_trim ne]
        two_separators_anchor two_separators_match two_separators_last l length_dashes)
  also have "\<dots> = Inr (dashes @ ''a'')"
    by (simp add: slice_def two_separators_def dashes_def dash_def)
  finally show ?thesis using m l by simp
qed

lemma cleanup_shape:
  assumes "cleanupTerraformOutput ne None stdout stderr regexStr = Inr out"
    and "trim_marker stdout = Inr t"
  shows "\<exists>n. out = take n (drop (nat (if Index t (anchor ne) = - 1 then 0 else Index t (anchor ne))) t)"
proof -
  have "\<exists>e. cleanupTerraformOutput ne None stdout stderr regexStr =
      slice t (if Index t (anchor ne) = - 1 then 0 else Index t (anchor ne)) e"
  proof (cases regexStr rule: pattern_compiles.cases)
    case 1
    with cleanup_nomatch_eq[OF assms(2), of regexStr ne stderr] show ?thesis by blast
  next
    case (2 regex)
    show ?thesis
    proof (cases "regex t = []")
      case True
      with 2 cleanup_nomatch_eq[OF assms(2), of regexStr ne stderr] show ?thesis by blast
    next
      case False
      from cleanup_match_eq[of stdout t regex, OF assms(2) False, of ne stderr] 2
      show ?thesis by (auto simp: Let_def)
    qed
  next
    case 3
    with assms cleanup_noparse_eq[OF assms(2), of ne stderr] show ?thesis by simp
  qed
  with assms(1) show ?thesis by (auto simp: slice_def split: if_splits)
qed

lemma Index_ge: "- 1 \<le> Index s sub"
  using Index_range[of s sub] by auto

lemma anchor_at_front:
  assumes "out = take n (drop (nat (if Index t a = - 1 then 0 else Index t a)) t)"
  shows "Index out a = - 1 \<or> Index out a = 0"
proof (cases "Index t a = - 1")
  case True
  then have "\<not> sublist a t" using Index_none by blast
  moreover have "sublist out t" using assms by (simp add: sublist_take_drop)
  ultimately have "\<not> sublist a out" using sublist_order.order_trans by blast
  then show ?thesis using Index_none by blast
next
  case False
  then have p: "prefix a (drop (nat (Index t a)) t)" by (rule Index_prefix)
  from False assms have out: "out = take n (drop (nat (Index t a)) t)" by simp
  show ?thesis
  proof (cases "length a \<le> n")
    case True
    with p have "prefix a out" unfolding out by (auto simp: prefix_def)
    then show ?thesis by (simp add: Index_prefix_0)
  next
    case False
    then have "length out < length a" unfolding out by simp
    then have "\<not> sublist a out" using sublist_length_le by fastforce
    then show ?thesis using Index_none by blast
  qed
qed

lemma trim_marker_stable:
  assumes "Index out marker \<le> 0"
  shows "trim_marker out = Inr out"
proof -
  have "Index out marker = - 1 \<or> Index out marker = 0" using assms Index_ge[of out marker] by arith
  then show ?thesis by (auto simp: trim_marker_def slice_def)
qed

text \<open>
  Claim C8, as amended. With a nil error, sanitizing a sanitized output again with the same
  flag and the same pattern returns it unchanged, provided the backend marker does not occur
  in it after its first byte and, when a pattern is supplied, the pattern either has no match
  in it or the last occurrence of its leftmost match's text ends where the output ends.
\<close>

theorem cleanup_idempotent_when_stable:
  assumes "cleanupTerraformOutput ne None stdout stderr regexStr = Inr out"
    and "Index out marker \<le> 0"
    and "case regexStr of None \<Rightarrow> True
         | Some (Compiles regex) \<Rightarrow> regex out = [] \<or>
             LastIndex out (regex out ! 0) + int (length (regex out ! 0)) = int (length out)
         | Some DoesNotParse \<Rightarrow> True"
  shows "cleanupTerraformOutput ne None out stderr regexStr = Inr out"
proof -
  obtain t where t: "trim_marker stdout = Inr t" using trim_marker_ok by blast
  from cleanup_shape[OF assms(1) t] obtain n where
    "out = take n (drop (nat (if Index t (anchor ne) = - 1 then 0 else Index t (anchor ne))) t)" ..
  then have "Index out (anchor ne) = - 1 \<or> Index out (anchor ne) = 0" by (rule anchor_at_front)
  then have front: "(if Index out (anchor ne) = - 1 then 0 else Index out (anchor ne)) = 0" by auto
  have tr: "trim_marker out = Inr out" using assms(2) by (rule trim_marker_stable)
  have whole: "slice out 0 (int (length out)) = Inr out" by (simp add: slice_def)
  show ?thesis
  proof (cases "regexStr = None \<or> (\<exists>regex. regexStr = Some (Compiles regex) \<and> regex out = [])")
    case True
    from cleanup_nomatch_eq[OF tr True, of ne stderr] front whole show ?thesis by simp
  next
    case False
    have "regexStr \<noteq> Some DoesNotParse"
      using assms(1) cleanup_noparse_eq[of stdout t ne stderr] t by auto
    with False obtain regex where r: "regexStr = Some (Compiles regex)" "regex out \<noteq> []"
      by (cases regexStr rule: pattern_compiles.cases) auto
    with assms(3) have e: "LastIndex out (regex out ! 0) + int (length (regex out ! 0)) = int (length out)"
      by simp
    have "cleanupTerraformOutput ne None out stderr (Some (Compiles regex)) = slice out 0 (int (length out))"
      unfolding cleanup_match_eq[of out out regex, OF tr r(2)] using front e by (simp add: Let_def)
    with whole r show ?thesis by simp
  qed
qed

text \<open>
  Claim C8 as stated fails: the first pass over \<open>marker_twice\<close> cuts at the anchor and
  keeps the second marker, the second pass cuts at that marker.
\<close>

theorem cleanup_idempotent_counterexample:
  "cleanupTerraformOutput True None marker_twice [] None = Inr (anchor True @ marker) \<and>
   cleanupTerraformOutput True None (anchor True @ marker) [] None = Inr marker \<and>
   anchor True @ marker \<noteq> marker"
proof -
  have t1: "trim_marker marker_twice = Inr marker_twice"
    by (simp add: trim_marker_def marker_twice_def marker_def anchor_def slice_def)
  have i1: "Index marker_twice (anchor True) = 27"
    by (simp add: marker_twice_def marker_def anchor_def)
  have s1: "slice marker_twice 27 (int (length marker_twice)) = Inr (anchor True @ marker)"
    by (simp add: slice_def marker_twice_def marker_def anchor_def)
  have t2: "trim_marker (anchor True @ marker) = Inr marker"
    by (simp add: trim_marker_def marker_def anchor_def slice_def)
  have i2: "Index marker (anchor True) = - 1"
    by (simp add: marker_def anchor_def)
  have s2: "slice marker 0 (int (length marker)) = Inr marker"
    by (simp add: slice_def)
  have "cleanupTerraformOutput True None marker_twice [] None = Inr (anchor True @ marker)"
    using cleanup_nomatch_eq[OF t1, of None True "[]"] i1 s1 by simp
  moreover have "cleanupTerraformOutput True None (anchor True @ marker) [] None = Inr marker"
    using cleanup_nomatch_eq[OF t2, of None True "[]"] i2 s2 by simp
  moreover have "anchor True @ marker \<noteq> marker" by (simp add: anchor_def)
  ultimately show ?thesis by blast
qed

lemma plan_sample_trim: "trim_marker plan_sample = Inr plan_sample_trimmed"
  by (simp add: trim_marker_def plan_sample_def plan_sample_trimmed_def plan_sample_clean_def
      marker_def anchor_def slice_def dashes_def dash_def)

lemma plan_sample_anchor: "Index plan_sample_trimmed (anchor True) = 28"
  by (simp add: plan_sample_trimmed_def plan_sample_clean_def marker_def anchor_def)

lemma plan_sample_match: "plan_regex plan_sample_trimmed = [dashes @ ''-'']"
  by (simp add: plan_sample_trimmed_def plan_sample_clean_def marker_def anchor_def
      dashes_def dash_def rest_of_line_def)

lemma plan_sample_last: "LastIndex plan_sample_trimmed (dashes @ ''-'') = 77"
  by (simp add: plan_sample_trimmed_def plan_sample_clean_def marker_def anchor_def
      dashes_def dash_def)

lemma plan_sample_piece: "take 83 (drop 28 plan_sample_trimmed) = plan_sample_clean"
  by (simp add: plan_sample_trimmed_def plan_sample_clean_def marker_def anchor_def
      dashes_def dash_def)

lemma plan_sample_cleanup:
  "cleanupTerraformOutput True None plan_sample [] (Some (Compiles plan_regex)) = Inr plan_sample_clean"
proof -
  have ne: "plan_regex plan_sample_trimmed \<noteq> []" by (simp add: plan_sample_match)
  have len: "111 \<le> int (length plan_sample_trimmed)"
    by (simp add: plan_sample_trimmed_def plan_sample_clean_def marker_def anchor_def length_dashes)
  have "cleanupTerraformOutput True None plan_sample [] (Some (Compiles plan_regex)) = slice plan_sample_trimmed 28 111"
    by (simp add: cleanup_match_eq[of plan_sample plan_sample_trimmed plan_regex, OF plan_sample_trim ne]
        plan_sample_anchor plan_sample_match plan_sample_last length_dashes)
  also have "\<dots> = Inr plan_sample_clean"
    using len by (simp add: slice_def plan_sample_piece)
  finally show ?thesis .
qed

text \<open>The amended claim C5 on \<open>plan_sample\<close>.\<close>

theorem cleanup_end_position_witness:
  "match_in_input plan_regex \<and> trim_marker plan_sample = Inr plan_sample_trimmed \<and>
   plan_regex plan_sample_trimmed \<noteq> [] \<and>
   LastIndex plan_sample_trimmed (dashes @ ''-'') = 77 \<and>
   cleanupTerraformOutput True None plan_sample [] (Some (Compiles plan_regex)) =
     Inr (take 83 (drop 28 plan_sample_trimmed))"
proof -
  have ne: "plan_regex plan_sample_trimmed \<noteq> []" by (simp add: plan_sample_match)
  from cleanup_end_position[OF plan_regex_in_input plan_sample_trim ne, of True "[]"]
  have "cleanupTerraformOutput True None plan_sample [] (Some (Compiles plan_regex)) =
     Inr (take 83 (drop 28 plan_sample_trimmed))"
    by (simp add: plan_sample_anchor plan_sample_match plan_sample_last length_dashes)
  then show ?thesis
    using plan_regex_in_input plan_sample_trim ne plan_sample_last by simp
qed

lemma plan_sample_clean_marker: "Index plan_sample_clean marker = - 1"
  by (simp add: plan_sample_clean_def marker_def anchor_def dashes_def dash_def)

lemma plan_sample_clean_match: "plan_regex plan_sample_clean = [dashes @ ''-'']"
  by (simp add: plan_sample_clean_def anchor_def dashes_def dash_def rest_of_line_def)

lemma plan_sample_clean_last: "LastIndex plan_sample_clean (dashes @ ''-'') = 49"
  by (simp add: plan_sample_clean_def anchor_def dashes_def dash_def)

lemma plan_sample_clean_length: "length plan_sample_clean = 83"
  by (simp add: plan_sample_clean_def anchor_def length_dashes)

text \<open>The amended claim C8 on \<open>plan_sample\<close>.\<close>

theorem cleanup_idempotent_when_stable_witness:
  "cleanupTerraformOutput True None plan_sample [] (Some (Compiles plan_regex)) = Inr plan_sample_clean \<and>
   Index plan_sample_clean marker \<le> 0 \<and>
   LastIndex plan_sample_clean (plan_regex plan_sample_clean ! 0)
     + int (length (plan_regex plan_sample_clean ! 0)) = int (length plan_sample_clean) \<and>
   cleanupTerraformOutput True None plan_sample_clean [] (Some (Compiles plan_regex)) = Inr plan_sample_clean"
proof -
  have a: "Index plan_sample_clean marker \<le> 0" by (simp add: plan_sample_clean_marker)
  have b: "LastIndex plan_sample_clean (plan_regex plan_sample_clean ! 0)
     + int (length (plan_regex plan_sample_clean ! 0)) = int (length plan_sample_clean)"
    by (simp add: plan_sample_clean_match plan_sample_clean_last plan_sample_clean_length length_dashes)
  from cleanup_idempotent_when_stable[OF plan_sample_cleanup a] b
  have "cleanupTerraformOutput True None plan_sample_clean [] (Some (Compiles plan_regex)) = Inr plan_sample_clean"
    by simp
  with plan_sample_cleanup a b show ?thesis by blast
qed
section \<open>Properties of the locking wrapper\<close>

lemma call_Lock_eq:
  "pl_Lock pl (snd s) = ((locked, err), w) \<Longrightarrow>
   call_Lock pl s = ((locked, err), (fst s @ [LockCalled locked err], w))"
  by (simp add: call_Lock_def call_def)

text \<open>
  Claim C2. When the lock answers "not acquired" without an error, \<open>Plan\<close> returns
  \<open>(false, "", nil)\<close> and \<open>Apply\<close> returns \<open>(false, nil)\<close>; when the lock answers with
  an error, both return that error wrapped in "error locking project: ". In both cases the
  result and the final state (the call of the lock and, without an error, the log line) are
  given without the wrapped executor: it is not invoked. When the lock is acquired, the
  result is the wrapped executor's, run in the state left by the lock and the log line.
\<close>

theorem LockingExecutorWrapper_skips_or_delegates:
  "(pl_Lock (lw_ProjectLock l) (snd s) = ((False, None), w) \<longrightarrow>
      LockingExecutorWrapper_Plan l s =
        (Inr (False, [], None),
         (fst s @ [LockCalled False None, Logged (''Lock result: false'' @ nl)], w)) \<and>
      LockingExecutorWrapper_Apply l s =
        (Inr (False, None),
         (fst s @ [LockCalled False None, Logged (''Lock result: false'' @ nl)], w))) \<and>
   (pl_Lock (lw_ProjectLock l) (snd s) = ((locked, Some e), w) \<longrightarrow>
      LockingExecutorWrapper_Plan l s =
        (Inr (False, [], Some (Err (''error locking project: '' @ Error e))),
         (fst s @ [LockCalled locked (Some e)], w)) \<and>
      LockingExecutorWrapper_Apply l s =
        (Inr (False, Some (Err (''error locking project: '' @ Error e))),
         (fst s @ [LockCalled locked (Some e)], w))) \<and>
   (pl_Lock (lw_ProjectLock l) (snd s) = ((True, None), w) \<longrightarrow>
      LockingExecutorWrapper_Plan l s =
        ex_Plan (lw_Executor l)
          (fst s @ [LockCalled True None, Logged (''Lock result: true'' @ nl)], w) \<and>
      LockingExecutorWrapper_Apply l s =
        ex_Apply (lw_Executor l)
          (fst s @ [LockCalled True None, Logged (''Lock result: true'' @ nl)], w))"
  by (simp add: LockingExecutorWrapper_Plan_def LockingExecutorWrapper_Apply_def call_Lock_def
      call_def emit_def fmt_t_def Errorf_def)

text \<open>
  Claim C9. Whenever the underlying lock returns no error, the wrapper's \<open>Lock\<close> returns
  nil, whether the lock was acquired or not: the answer and the final state do not keep
  what \<open>acquired\<close> was beyond the trace of the call, so the caller cannot tell acquisition
  from contention.
\<close>

theorem LockingExecutorWrapper_Lock_discards_acquired:
  "pl_Lock (lw_ProjectLock l) (snd s) = ((acquired, None), w) \<Longrightarrow>
   LockingExecutorWrapper_Lock l s = (None, (fst s @ [LockCalled acquired None], w))"
  by (simp add: LockingExecutorWrapper_Lock_def call_Lock_def call_def)


text \<open>Claim C2 on a held lock, a failing lock and a free lock.\<close>

theorem LockingExecutorWrapper_skips_or_delegates_witness:
  "pl_Lock (sample_lock False None) 0 = ((False, None), 1) \<and>
   LockingExecutorWrapper_Plan
     \<lparr>lw_ProjectLock = sample_lock False None,
      lw_Executor = as_Executor (sample_digger None None) sample_getenv\<rparr> ([], 0) =
     (Inr (False, [], None), ([LockCalled False None, Logged (''Lock result: false'' @ nl)], 1)) \<and>
   pl_Lock (sample_lock False (Some (Err ''timeout''))) 0 = ((False, Some (Err ''timeout'')), 1) \<and>
   LockingExecutorWrapper_Apply
     \<lparr>lw_ProjectLock = sample_lock False (Some (Err ''timeout'')),
      lw_Executor = as_Executor (sample_digger None None) sample_getenv\<rparr> ([], 0) =
     (Inr (False, Some (Err ''error locking project: timeout'')),
      ([LockCalled False (Some (Err ''timeout''))], 1)) \<and>
   pl_Lock (sample_lock True None) 0 = ((True, None), 1) \<and>
   LockingExecutorWrapper_Apply
     \<lparr>lw_ProjectLock = sample_lock True None,
      lw_Executor = as_Executor (sample_digger None None) sample_getenv\<rparr> ([], 0) =
     Apply (sample_digger None None) sample_getenv
       ([LockCalled True None, Logged (''Lock result: true'' @ nl)], 1)"
  using LockingExecutorWrapper_skips_or_delegates
          [of "\<lparr>lw_ProjectLock = sample_lock False None,
                lw_Executor = as_Executor (sample_digger None None) sample_getenv\<rparr>"
              "([], 0)" 1]
        LockingExecutorWrapper_skips_or_delegates
          [of "\<lparr>lw_ProjectLock = sample_lock False (Some (Err ''timeout'')),
                lw_Executor = as_Executor (sample_digger None None) sample_getenv\<rparr>"
              "([], 0)" 1 False "Err ''timeout''"]
        LockingExecutorWrapper_skips_or_delegates
          [of "\<lparr>lw_ProjectLock = sample_lock True None,
                lw_Executor = as_Executor (sample_digger None None) sample_getenv\<rparr>"
              "([], 0)" 1]
  by (simp add: sample_lock_def as_Executor_def)

text \<open>Claim C9 on a lock that is held by another party.\<close>

theorem LockingExecutorWrapper_Lock_discards_acquired_witness:
  "pl_Lock (sample_lock False None) 0 = ((False, None), 1) \<and>
   LockingExecutorWrapper_Lock
     \<lparr>lw_ProjectLock = sample_lock False None,
      lw_Executor = as_Executor (sample_digger None None) sample_getenv\<rparr> ([], 0) =
     (None, ([LockCalled False None], 1))"
  using LockingExecutorWrapper_Lock_discards_acquired
          [of "\<lparr>lw_ProjectLock = sample_lock False None,
                lw_Executor = as_Executor (sample_digger None None) sample_getenv\<rparr>"
              "([], 0)" False 1]
  by (simp add: sample_lock_def)
section \<open>Properties of \<open>Plan\<close>\<close>

lemma last_PlanCalled_append:
  "last_PlanCalled (xs @ ys) =
     (case last_PlanCalled ys of Some r \<Rightarrow> Some r | None \<Rightarrow> last_PlanCalled xs)"
  by (induction xs) (auto split: option.splits)

lemma Plan_init_cases:
  assumes "Plan_init d step s = (x, s')"
  shows "(\<exists>tr. fst s' = fst s @ tr \<and> last_PlanCalled tr = None) \<and>
         (\<forall>r. x = Inl r \<longrightarrow> (\<exists>e. r = Inr (False, [], Some e)))"
  using assms
  by (auto simp: Plan_init_def call_Init_def call_def split: if_splits prod.splits)

lemma Plan_run_cases:
  assumes "Plan_run d getenv step s = (x, s')"
  shows "(\<exists>tr. fst s' = fst s @ tr \<and> last_PlanCalled tr = None) \<and>
         (\<forall>r. x = Inl r \<longrightarrow> (\<exists>e. r = Inr (False, [], Some e)))"
  using assms
  by (auto simp: Plan_run_def call_Run_def call_def emit_def Let_def split: if_splits prod.splits)

lemma Plan_store_cases:
  assumes "Plan_store d s = (x, s')"
  shows "(\<exists>tr. fst s' = fst s @ tr \<and> last_PlanCalled tr = None) \<and>
         (\<forall>r. x = Inl r \<longrightarrow> (\<exists>e. r = Inr (False, [], Some e)))"
  using assms
  by (auto simp: Plan_store_def call_def Let_def split: if_splits prod.splits option.splits)


lemma Plan_plan_skip: "Action step \<noteq> ''plan'' \<Longrightarrow> Plan_plan d step plan s = (Inr plan, s)"
  by (simp add: Plan_plan_def)

lemma Plan_plan_cases:
  assumes "Plan_plan d step plan s = (x, s')" and "Action step = ''plan''"
  shows "(\<exists>tr. fst s' = fst s @ tr \<and>
            (\<forall>plan'. x = Inr plan' \<longrightarrow>
               (\<exists>ne out err. last_PlanCalled tr = Some (ne, out, err, None) \<and>
                  cleanupTerraformPlan ne None out err = Inr plan'))) \<and>
         (\<forall>r. x = Inl r \<longrightarrow> (\<exists>p. r = Inl p) \<or> (\<exists>e. r = Inr (False, [], Some e)))"
proof -
  let ?args = "[''-out'', pp_PlanFileName (de_PlanPathProvider d)] @ ExtraArgs step"
  obtain ne out err e w where t: "tf_Plan (de_TerraformExecutor d) ?args (de_CommandEnvVars d) (snd s)
      = ((ne, out, err, e), w)" by (metis prod_cases4 surj_pair)
  let ?s1 = "(fst s @ [PlanCalled ?args (de_CommandEnvVars d) ne out err e], w)"
  show ?thesis
  proof (cases e)
    case (Some e')
    with t assms show ?thesis
      by (auto simp: Plan_plan_def call_def Let_def)
  next
    case None
    obtain y s2 where st: "Plan_store d ?s1 = (y, s2)" by (cases "Plan_store d ?s1")
    from Plan_store_cases[OF st] obtain tr where
      tr: "fst s2 = fst ?s1 @ tr" "last_PlanCalled tr = None"
      and ab: "\<forall>r. y = Inl r \<longrightarrow> (\<exists>e. r = Inr (False, [], Some e))" by blast
    have l: "last_PlanCalled ([PlanCalled ?args (de_CommandEnvVars d) ne out err None] @ tr)
        = Some (ne, out, err, None)"
      unfolding last_PlanCalled_append using tr(2) by simp
    show ?thesis
    proof (cases y)
      case (Inl r)
      with t None st assms ab tr show ?thesis
        by (auto simp: Plan_plan_def call_def Let_def)
    next
      case (Inr u)
      show ?thesis
      proof (cases "cleanupTerraformPlan ne None out err")
        case (Inl p)
        with t None st assms Inr tr show ?thesis
          by (auto simp: Plan_plan_def call_def Let_def)
      next
        case c: (Inr plan')
        from t None st assms Inr c have "x = Inr plan'" "s' = s2"
          by (auto simp: Plan_plan_def call_def Let_def)
        with tr l c None show ?thesis by auto
      qed
    qed
  qed
qed

lemma Plan_step_cases:
  assumes "Plan_step d getenv step plan s = (x, s')"
  shows "(\<exists>tr. fst s' = fst s @ tr \<and>
            (\<forall>plan'. x = Inr plan' \<longrightarrow>
               (if Action step = ''plan''
                then \<exists>ne out err. last_PlanCalled tr = Some (ne, out, err, None) \<and>
                       cleanupTerraformPlan ne None out err = Inr plan'
                else last_PlanCalled tr = None \<and> plan' = plan))) \<and>
         (\<forall>r. x = Inl r \<longrightarrow> (\<exists>p. r = Inl p) \<or> (\<exists>e. r = Inr (False, [], Some e)))"
proof -
  obtain a s1 where i: "Plan_init d step s = (a, s1)" by (cases "Plan_init d step s")
  from Plan_init_cases[OF i] obtain tr1 where
    tr1: "fst s1 = fst s @ tr1" "last_PlanCalled tr1 = None"
    and ab1: "\<forall>r. a = Inl r \<longrightarrow> (\<exists>e. r = Inr (False, [], Some e))" by blast
  show ?thesis
  proof (cases a)
    case (Inl r)
    with i assms ab1 tr1 show ?thesis by (auto simp: Plan_step_def)
  next
    case a: (Inr u)
    obtain b s2 where p: "Plan_plan d step plan s1 = (b, s2)" by (cases "Plan_plan d step plan s1")
    have p2: "(\<exists>tr. fst s2 = fst s1 @ tr \<and>
            (\<forall>plan'. b = Inr plan' \<longrightarrow>
               (if Action step = ''plan''
                then \<exists>ne out err. last_PlanCalled tr = Some (ne, out, err, None) \<and>
                       cleanupTerraformPlan ne None out err = Inr plan'
                else last_PlanCalled tr = None \<and> plan' = plan))) \<and>
         (\<forall>r. b = Inl r \<longrightarrow> (\<exists>p. r = Inl p) \<or> (\<exists>e. r = Inr (False, [], Some e)))"
    proof (cases "Action step = ''plan''")
      case True
      from Plan_plan_cases[OF p True] True show ?thesis by simp
    next
      case False
      with p Plan_plan_skip[OF False, of d plan s1] have "b = Inr plan" "s2 = s1" by auto
      with False show ?thesis by (auto intro: exI[of _ "[]"])
    qed
    then obtain tr2 where tr2: "fst s2 = fst s1 @ tr2"
      and t2: "\<forall>plan'. b = Inr plan' \<longrightarrow>
               (if Action step = ''plan''
                then \<exists>ne out err. last_PlanCalled tr2 = Some (ne, out, err, None) \<and>
                       cleanupTerraformPlan ne None out err = Inr plan'
                else last_PlanCalled tr2 = None \<and> plan' = plan)"
      and ab2: "\<forall>r. b = Inl r \<longrightarrow> (\<exists>p. r = Inl p) \<or> (\<exists>e. r = Inr (False, [], Some e))" by blast
    show ?thesis
    proof (cases b)
      case (Inl r)
      with a i p assms have "x = Inl r" "s' = s2" by (auto simp: Plan_step_def)
      with Inl ab2 tr1 tr2 show ?thesis by auto
    next
      case b: (Inr plan1)
      obtain c s3 where r: "Plan_run d getenv step s2 = (c, s3)" by (cases "Plan_run d getenv step s2")
      from Plan_run_cases[OF r] obtain tr3 where
        tr3: "fst s3 = fst s2 @ tr3" "last_PlanCalled tr3 = None"
        and ab3: "\<forall>r. c = Inl r \<longrightarrow> (\<exists>e. r = Inr (False, [], Some e))" by blast
      have tr: "fst s3 = fst s @ (tr1 @ tr2 @ tr3)" using tr1 tr2 tr3 by simp
      have l: "last_PlanCalled (tr1 @ tr2 @ tr3) = last_PlanCalled tr2"
        using tr1(2) tr3(2) by (simp add: last_PlanCalled_append split: option.splits)
      show ?thesis
      proof (cases c)
        case (Inl r')
        with a b i p r assms have "x = Inl r'" "s' = s3" by (auto simp: Plan_step_def)
        with Inl ab3 tr show ?thesis by auto
      next
        case (Inr u')
        with a b i p r assms have x: "x = Inr plan1" "s' = s3" by (auto simp: Plan_step_def)
        from t2 b have "if Action step = ''plan''
                then \<exists>ne out err. last_PlanCalled tr2 = Some (ne, out, err, None) \<and>
                       cleanupTerraformPlan ne None out err = Inr plan1
                else last_PlanCalled tr2 = None \<and> plan1 = plan" by simp
        with x tr l show ?thesis by (auto intro!: exI[of _ "tr1 @ tr2 @ tr3"] split: if_splits)
      qed
    qed
  qed
qed


lemma Plan_loop_text:
  assumes "Plan_loop d getenv steps plan0 s = (Inr (True, plan, None), s')"
  shows "\<exists>tr. fst s' = fst s @ tr \<and>
           (if \<exists>step\<in>set steps. Action step = ''plan''
            then \<exists>ne out err. last_PlanCalled tr = Some (ne, out, err, None) \<and>
                   cleanupTerraformPlan ne None out err = Inr plan
            else last_PlanCalled tr = None \<and> plan = plan0)"
  using assms
proof (induction steps arbitrary: plan0 s)
  case Nil
  then show ?case by (auto intro: exI[of _ "[]"])
next
  case (Cons step steps)
  obtain x s1 where st: "Plan_step d getenv step plan0 s = (x, s1)"
    by (cases "Plan_step d getenv step plan0 s")
  from Plan_step_cases[OF st] obtain tr1 where tr1: "fst s1 = fst s @ tr1"
    and t1: "\<forall>plan'. x = Inr plan' \<longrightarrow>
               (if Action step = ''plan''
                then \<exists>ne out err. last_PlanCalled tr1 = Some (ne, out, err, None) \<and>
                       cleanupTerraformPlan ne None out err = Inr plan'
                else last_PlanCalled tr1 = None \<and> plan' = plan0)"
    and ab: "\<forall>r. x = Inl r \<longrightarrow> (\<exists>p. r = Inl p) \<or> (\<exists>e. r = Inr (False, [], Some e))" by blast
  show ?case
  proof (cases x)
    case (Inl r)
    with st Cons.prems have "r = Inr (True, plan, None)" by simp
    with ab Inl show ?thesis by auto
  next
    case (Inr plan1)
    with st Cons.prems have "Plan_loop d getenv steps plan1 s1 = (Inr (True, plan, None), s')" by simp
    from Cons.IH[OF this] obtain tr2 where tr2: "fst s' = fst s1 @ tr2"
      and t2: "if \<exists>step\<in>set steps. Action step = ''plan''
            then \<exists>ne out err. last_PlanCalled tr2 = Some (ne, out, err, None) \<and>
                   cleanupTerraformPlan ne None out err = Inr plan
            else last_PlanCalled tr2 = None \<and> plan = plan1" by blast
    from t1 Inr have t1': "if Action step = ''plan''
                then \<exists>ne out err. last_PlanCalled tr1 = Some (ne, out, err, None) \<and>
                       cleanupTerraformPlan ne None out err = Inr plan1
                else last_PlanCalled tr1 = None \<and> plan1 = plan0" by simp
    have tr: "fst s' = fst s @ (tr1 @ tr2)" using tr1 tr2 by simp
    show ?thesis
    proof (cases "\<exists>step\<in>set steps. Action step = ''plan''")
      case True
      with t2 obtain ne out err where "last_PlanCalled tr2 = Some (ne, out, err, None)"
        "cleanupTerraformPlan ne None out err = Inr plan" by auto
      then have "last_PlanCalled (tr1 @ tr2) = Some (ne, out, err, None) \<and>
          cleanupTerraformPlan ne None out err = Inr plan"
        by (simp add: last_PlanCalled_append)
      with tr True show ?thesis by (intro exI[of _ "tr1 @ tr2"]) auto
    next
      case False
      with t2 have n2: "last_PlanCalled tr2 = None" "plan = plan1" by auto
      then have l: "last_PlanCalled (tr1 @ tr2) = last_PlanCalled tr1"
        by (simp add: last_PlanCalled_append)
      show ?thesis
      proof (cases "Action step = ''plan''")
        case True
        with t1' n2 l tr show ?thesis by (intro exI[of _ "tr1 @ tr2"]) auto
      next
        case f: False
        with t1' n2 l tr False show ?thesis by (intro exI[of _ "tr1 @ tr2"]) auto
      qed
    qed
  qed
qed

lemma Plan_step_unrecognized:
  "Action step \<noteq> ''init'' \<Longrightarrow> Action step \<noteq> ''plan'' \<Longrightarrow> Action step \<noteq> ''run'' \<Longrightarrow>
   Plan_step d getenv step plan s = (Inr plan, s)"
  by (simp add: Plan_step_def Plan_init_def Plan_plan_def Plan_run_def)

lemma Plan_loop_unrecognized:
  "\<forall>step\<in>set steps. Action step \<noteq> ''init'' \<and> Action step \<noteq> ''plan'' \<and> Action step \<noteq> ''run'' \<Longrightarrow>
   Plan_loop d getenv steps plan s = (Inr (True, plan, None), s)"
  by (induction steps) (simp_all add: Plan_step_unrecognized)

text \<open>
  Claim C10. When \<open>Plan\<close> returns success, its trace has grown by the calls of this run;
  if the stage has a plan step, the returned text is the sanitized output (with a nil error)
  of the latest call of the tool's plan operation in that trace, so earlier plan outputs are
  overwritten; if the stage has no plan step, no plan call was made and the text is empty.
  A stage of unrecognized actions only returns \<open>(true, "", nil)\<close> and leaves the state as
  it was.
\<close>

theorem Plan_success_text:
  "(Plan d getenv s = (Inr (True, plan, None), s') \<longrightarrow>
      (\<exists>tr. fst s' = fst s @ tr \<and>
         (if \<exists>step\<in>set (planSteps d). Action step = ''plan''
          then \<exists>ne out err. last_PlanCalled tr = Some (ne, out, err, None) \<and>
                 cleanupTerraformPlan ne None out err = Inr plan
          else last_PlanCalled tr = None \<and> plan = []))) \<and>
   ((\<forall>step\<in>set (planSteps d).
        Action step \<noteq> ''init'' \<and> Action step \<noteq> ''plan'' \<and> Action step \<noteq> ''run'') \<longrightarrow>
      Plan d getenv s = (Inr (True, [], None), s))"
  using Plan_loop_text[of d getenv "planSteps d" "[]" s plan s']
        Plan_loop_unrecognized[of "planSteps d" d getenv "[]" s]
  by (simp add: Plan_def)

lemma Plan_step_tool_error:
  assumes "Action step = ''plan''"
    and "tf_Plan (de_TerraformExecutor d)
           ([''-out'', pp_PlanFileName (de_PlanPathProvider d)] @ ExtraArgs step)
           (de_CommandEnvVars d) (snd s) = ((ne, out, err, Some e), w)"
  shows "Plan_step d getenv step plan s =
           (Inl (Inr (False, [], Some (Err (''error executing plan: '' @ Error e)))),
            (fst s @ [PlanCalled ([''-out'', pp_PlanFileName (de_PlanPathProvider d)] @ ExtraArgs step)
                        (de_CommandEnvVars d) ne out err (Some e)], w))"
  using assms
  by (simp add: Plan_step_def Plan_init_def Plan_plan_def call_def Let_def Errorf_def)

text \<open>
  Claim C6, as amended. When the tool's plan operation returns an error in a plan step,
  \<open>Plan\<close> returns \<open>(false, "", error executing plan: ...)\<close> right after that call: no
  storage operation follows, no later step runs, and no sanitized text is produced. Whenever
  a plan step does produce a plan text, that text is the sanitizer's result for the outputs
  of a tool call that returned a nil error, with nil passed as the error: the sanitizer is
  never invoked with a plan error.
\<close>

theorem Plan_tool_error_aborts:
  "(Action step = ''plan'' \<and>
    tf_Plan (de_TerraformExecutor d)
      ([''-out'', pp_PlanFileName (de_PlanPathProvider d)] @ ExtraArgs step)
      (de_CommandEnvVars d) (snd s) = ((ne, out, err, Some e), w) \<longrightarrow>
      Plan_loop d getenv (step # steps) plan s =
        (Inr (False, [], Some (Err (''error executing plan: '' @ Error e))),
         (fst s @ [PlanCalled ([''-out'', pp_PlanFileName (de_PlanPathProvider d)] @ ExtraArgs step)
                     (de_CommandEnvVars d) ne out err (Some e)], w))) \<and>
   (Action step = ''plan'' \<and> Plan_plan d step plan s = (Inr plan', s') \<longrightarrow>
      (\<exists>tr ne out err. fst s' = fst s @ tr \<and>
          last_PlanCalled tr = Some (ne, out, err, None) \<and>
          cleanupTerraformPlan ne None out err = Inr plan'))"
proof (intro conjI impI)
  assume a: "Action step = ''plan'' \<and>
    tf_Plan (de_TerraformExecutor d)
      ([''-out'', pp_PlanFileName (de_PlanPathProvider d)] @ ExtraArgs step)
      (de_CommandEnvVars d) (snd s) = ((ne, out, err, Some e), w)"
  then show "Plan_loop d getenv (step # steps) plan s =
        (Inr (False, [], Some (Err (''error executing plan: '' @ Error e))),
         (fst s @ [PlanCalled ([''-out'', pp_PlanFileName (de_PlanPathProvider d)] @ ExtraArgs step)
                     (de_CommandEnvVars d) ne out err (Some e)], w))"
    using Plan_step_tool_error[of step d s ne out err e w getenv plan] by simp
next
  assume "Action step = ''plan'' \<and> Plan_plan d step plan s = (Inr plan', s')"
  then have "Plan_plan d step plan s = (Inr plan', s')" "Action step = ''plan''" by auto
  from Plan_plan_cases[OF this] show "\<exists>tr ne out err. fst s' = fst s @ tr \<and>
          last_PlanCalled tr = Some (ne, out, err, None) \<and>
          cleanupTerraformPlan ne None out err = Inr plan'" by blast
qed

lemma Step_of_Action_sel:
  "Action (Step_of_Action a) = a" "ExtraArgs (Step_of_Action a) = []"
  "Value (Step_of_Action a) = []" "Shell (Step_of_Action a) = []"
  by (simp_all add: Step_of_Action_def)

lemma sample_PlanFileName: "pp_PlanFileName (as_PlanPathProvider sample_project) = ''org:repo#prod.tfplan''"
  by (simp add: as_PlanPathProvider_def sample_project_def PlanFileName_def ReplaceAll_slash_colon_def)

lemma sample_planSteps: "planSteps (sample_digger toolErr commentErr) = [Step_of_Action ''init'', Step_of_Action ''plan'']"
  by (simp add: planSteps_def sample_digger_def)

lemma sample_plan_clean: "cleanupTerraformPlan True None plan_sample [] = Inr plan_sample_clean"
  by (simp add: cleanupTerraformPlan_def plan_sample_cleanup)

lemma sample_init_step:
  "Plan_step (sample_digger toolErr commentErr) getenv (Step_of_Action ''init'') plan (tr, w) =
     (Inr plan, (tr @ [InitCalled [] Map.empty None], Suc w))"
  by (simp add: Plan_step_def Plan_init_def Plan_plan_def Plan_run_def call_Init_def call_def
      Step_of_Action_sel sample_digger_def sample_tool_def)

lemma sample_plan_plan:
  "Plan_plan (sample_digger None commentErr) (Step_of_Action ''plan'') plan (tr, w) =
     (Inr plan_sample_clean,
      (tr @ [PlanCalled [''-out'', ''org:repo#prod.tfplan''] Map.empty True plan_sample [] None], Suc w))"
  by (simp add: Plan_plan_def Plan_store_def call_def Step_of_Action_sel sample_digger_def
      sample_tool_def sample_PlanFileName sample_plan_clean)

lemma sample_plan_step:
  "Plan_step (sample_digger None commentErr) getenv (Step_of_Action ''plan'') plan (tr, w) =
     (Inr plan_sample_clean,
      (tr @ [PlanCalled [''-out'', ''org:repo#prod.tfplan''] Map.empty True plan_sample [] None], Suc w))"
  by (simp add: Plan_step_def sample_plan_plan Plan_init_def Plan_run_def Step_of_Action_sel)

lemma sample_plan_run:
  "Plan (sample_digger None None) sample_getenv ([], 0) =
     (Inr (True, plan_sample_clean, None),
      ([InitCalled [] Map.empty None,
        PlanCalled [''-out'', ''org:repo#prod.tfplan''] Map.empty True plan_sample [] None], 2))"
  by (simp add: Plan_def sample_planSteps sample_init_step sample_plan_step numeral_2_eq_2)


text \<open>
  Claim C10 on the default stage with a tool that succeeds, and on a stage with the single
  unrecognized action \<open>destroy\<close>.
\<close>

theorem Plan_success_text_witness:
  "Plan (sample_digger None None) sample_getenv ([], 0) =
     (Inr (True, plan_sample_clean, None),
      ([InitCalled [] Map.empty None,
        PlanCalled [''-out'', ''org:repo#prod.tfplan''] Map.empty True plan_sample [] None], 2)) \<and>
   (\<exists>step\<in>set (planSteps (sample_digger None None)). Action step = ''plan'') \<and>
   last_PlanCalled
     [InitCalled [] Map.empty None,
      PlanCalled [''-out'', ''org:repo#prod.tfplan''] Map.empty True plan_sample [] None] =
     Some (True, plan_sample, [], None) \<and>
   cleanupTerraformPlan True None plan_sample [] = Inr plan_sample_clean \<and>
   planSteps ((sample_digger None None)\<lparr>de_PlanStage := Some \<lparr>Steps = [Step_of_Action ''destroy'']\<rparr>\<rparr>)
     = [Step_of_Action ''destroy''] \<and>
   Plan ((sample_digger None None)\<lparr>de_PlanStage := Some \<lparr>Steps = [Step_of_Action ''destroy'']\<rparr>\<rparr>)
     sample_getenv ([], 0) = (Inr (True, [], None), ([], 0))"
proof -
  let ?tr = "[InitCalled [] Map.empty None,
      PlanCalled [''-out'', ''org:repo#prod.tfplan''] Map.empty True plan_sample [] None]"
  let ?d2 = "(sample_digger None None)\<lparr>de_PlanStage := Some \<lparr>Steps = [Step_of_Action ''destroy'']\<rparr>\<rparr>"
  have u: "\<forall>step\<in>set (planSteps ?d2).
      Action step \<noteq> ''init'' \<and> Action step \<noteq> ''plan'' \<and> Action step \<noteq> ''run''"
    by (simp add: planSteps_def Step_of_Action_sel)
  have e: "\<exists>step\<in>set (planSteps (sample_digger None None)). Action step = ''plan''"
    by (simp add: sample_planSteps Step_of_Action_sel)
  have l: "last_PlanCalled ?tr = Some (True, plan_sample, [], None)" by simp
  from Plan_success_text[of ?d2 sample_getenv "([], 0)"] u
  have "Plan ?d2 sample_getenv ([], 0) = (Inr (True, [], None), ([], 0))" by blast
  moreover
  from Plan_success_text[of "sample_digger None None" sample_getenv "([], 0)" plan_sample_clean "(?tr, 2)"]
    sample_plan_run e
  have "\<exists>ne out err. last_PlanCalled ?tr = Some (ne, out, err, None) \<and>
          cleanupTerraformPlan ne None out err = Inr plan_sample_clean" by auto
  with l have "cleanupTerraformPlan True None plan_sample [] = Inr plan_sample_clean" by auto
  moreover have "planSteps ?d2 = [Step_of_Action ''destroy'']" by (simp add: planSteps_def)
  ultimately show ?thesis using sample_plan_run e l by blast
qed

lemma sample_tool_error:
  "tf_Plan (de_TerraformExecutor (sample_digger (Some (Err ''exit status 1'')) None))
      ([''-out'', pp_PlanFileName (de_PlanPathProvider (sample_digger (Some (Err ''exit status 1'')) None))]
         @ ExtraArgs (Step_of_Action ''plan''))
      (de_CommandEnvVars (sample_digger (Some (Err ''exit status 1'')) None)) w =
     ((True, plan_sample, ''Error: some failure'', Some (Err ''exit status 1'')), Suc w)"
  by (simp add: sample_digger_def sample_tool_def)

text \<open>
  The amended claim C6 on a tool that fails (after the init step) and on one that succeeds.
\<close>

theorem Plan_tool_error_aborts_witness:
  "Plan_loop (sample_digger (Some (Err ''exit status 1'')) None) sample_getenv
     [Step_of_Action ''plan''] [] ([InitCalled [] Map.empty None], 1) =
     (Inr (False, [], Some (Err ''error executing plan: exit status 1'')),
      ([InitCalled [] Map.empty None,
        PlanCalled [''-out'', ''org:repo#prod.tfplan''] Map.empty True plan_sample
          ''Error: some failure'' (Some (Err ''exit status 1''))], 2)) \<and>
   Plan_plan (sample_digger None None) (Step_of_Action ''plan'') [] ([], 0) =
     (Inr plan_sample_clean,
      ([PlanCalled [''-out'', ''org:repo#prod.tfplan''] Map.empty True plan_sample [] None], 1)) \<and>
   (\<exists>tr ne out err.
       [PlanCalled [''-out'', ''org:repo#prod.tfplan''] Map.empty True plan_sample [] None] = tr \<and>
       last_PlanCalled tr = Some (ne, out, err, None) \<and>
       cleanupTerraformPlan ne None out err = Inr plan_sample_clean)"
proof -
  let ?d = "sample_digger (Some (Err ''exit status 1'')) None"
  from Plan_tool_error_aborts
         [of "Step_of_Action ''plan''" ?d "([InitCalled [] Map.empty None], 1)" True plan_sample
             "''Error: some failure''" "Err ''exit status 1''" 2 sample_getenv "[]" "[]"]
       sample_tool_error[of 1]
  have a: "Plan_loop ?d sample_getenv [Step_of_Action ''plan''] [] ([InitCalled [] Map.empty None], 1) =
     (Inr (False, [], Some (Err ''error executing plan: exit status 1'')),
      ([InitCalled [] Map.empty None,
        PlanCalled [''-out'', ''org:repo#prod.tfplan''] Map.empty True plan_sample
          ''Error: some failure'' (Some (Err ''exit status 1''))], 2))"
    by (simp add: Step_of_Action_sel sample_PlanFileName sample_digger_def numeral_2_eq_2)
  have p: "Plan_plan (sample_digger None None) (Step_of_Action ''plan'') [] ([], 0) =
     (Inr plan_sample_clean,
      ([PlanCalled [''-out'', ''org:repo#prod.tfplan''] Map.empty True plan_sample [] None], 1))"
    using sample_plan_plan[of None "[]" "[]" 0] by simp
  from Plan_tool_error_aborts
         [of "Step_of_Action ''plan''" "sample_digger None None" "([], 0)" _ _ _ _ _ _ _ "[]"
             plan_sample_clean
             "([PlanCalled [''-out'', ''org:repo#prod.tfplan''] Map.empty True plan_sample [] None], 1)"]
       p
  have "\<exists>tr ne out err.
       [PlanCalled [''-out'', ''org:repo#prod.tfplan''] Map.empty True plan_sample [] None] = tr \<and>
       last_PlanCalled tr = Some (ne, out, err, None) \<and>
       cleanupTerraformPlan ne None out err = Inr plan_sample_clean"
    by (simp add: Step_of_Action_sel)
  with a p show ?thesis by blast
qed

lemma cleanup_error_stderr:
  "stderr \<noteq> [] \<Longrightarrow> cleanupTerraformOutput ne (Some e) stdout stderr regexStr = Inr stderr"
  using trim_marker_ok[of stdout] by (auto simp: cleanupTerraformOutput_def)

text \<open>
  Claim C6 as stated fails: with a tool that returns an error and the standard error text
  \<open>Error: some failure\<close>, the sanitizer given that error would return this text, but
  \<open>Plan\<close> stops at the tool call and returns the empty plan text; the trace ends with the
  tool call.
\<close>

theorem Plan_tool_error_counterexample:
  "Plan (sample_digger (Some (Err ''exit status 1'')) None) sample_getenv ([], 0) =
     (Inr (False, [], Some (Err ''error executing plan: exit status 1'')),
      ([InitCalled [] Map.empty None,
        PlanCalled [''-out'', ''org:repo#prod.tfplan''] Map.empty True plan_sample
          ''Error: some failure'' (Some (Err ''exit status 1''))], 2)) \<and>
   cleanupTerraformPlan True (Some (Err ''exit status 1'')) plan_sample ''Error: some failure'' =
     Inr ''Error: some failure''"
proof -
  let ?d = "sample_digger (Some (Err ''exit status 1'')) None"
  have "Plan_step ?d sample_getenv (Step_of_Action ''plan'') [] ([InitCalled [] Map.empty None], 1) =
      (Inl (Inr (False, [], Some (Err ''error executing plan: exit status 1''))),
       ([InitCalled [] Map.empty None,
         PlanCalled [''-out'', ''org:repo#prod.tfplan''] Map.empty True plan_sample
           ''Error: some failure'' (Some (Err ''exit status 1''))], 2))"
    using Plan_step_tool_error
            [of "Step_of_Action ''plan''" ?d "([InitCalled [] Map.empty None], 1)" True plan_sample
                "''Error: some failure''" "Err ''exit status 1''" 2 sample_getenv "[]"]
          sample_tool_error[of 1]
    by (simp add: Step_of_Action_sel sample_PlanFileName sample_digger_def numeral_2_eq_2)
  then have "Plan ?d sample_getenv ([], 0) =
     (Inr (False, [], Some (Err ''error executing plan: exit status 1'')),
      ([InitCalled [] Map.empty None,
        PlanCalled [''-out'', ''org:repo#prod.tfplan''] Map.empty True plan_sample
          ''Error: some failure'' (Some (Err ''exit status 1''))], 2))"
    using sample_init_step[of "Some (Err ''exit status 1'')" None sample_getenv "[]" "[]" 0]
    by (simp add: Plan_def sample_planSteps)
  moreover have "cleanupTerraformPlan True (Some (Err ''exit status 1'')) plan_sample
      ''Error: some failure'' = Inr ''Error: some failure''"
    by (simp add: cleanupTerraformPlan_def cleanup_error_stderr)
  ultimately show ?thesis by blast
qed
section \<open>Properties of \<open>Apply\<close>\<close>














text \<open>
  Claim C7 fails on the code. With \<open>ACTIVATE_VENV=true\<close>, \<open>GITHUB_WORKSPACE=/ws\<close>
  and the project path \<open>/ws/app\<close>, the run step \<open>make lint\<close> is run by \<open>Plan\<close> after
  activating \<open>/ws/.venv\<close> and by \<open>Apply\<close> after activating \<open>/ws/app/.venv\<close>: the two
  command lists, and so the two calls of the command runner, differ.
\<close>

theorem run_commands_differ:
  "Plan_run_commands sample_getenv sample_run_step =
     [''source /ws/.venv/bin/activate'', ''make lint''] \<and>
   Apply_run_commands (sample_digger None None) sample_getenv sample_run_step =
     [''source /ws/app/.venv/bin/activate'', ''make lint''] \<and>
   Plan_run (sample_digger None None) sample_getenv sample_run_step ([], 0) =
     (Inr (),
      ([Logged (''Running make lint for **org/repo#prod**'' @ nl),
        RunCalled ''/ws/app'' ''bash'' [''source /ws/.venv/bin/activate'', ''make lint''] None], 1)) \<and>
   Apply_run (sample_digger None None) sample_getenv sample_run_step ([], 0) =
     (Inr (),
      ([Logged (''Running make lint for **org/repo#prod**'' @ nl),
        RunCalled ''/ws/app'' ''bash'' [''source /ws/app/.venv/bin/activate'', ''make lint''] None], 1))"
proof -
  have p: "Plan_run_commands sample_getenv sample_run_step =
     [''source /ws/.venv/bin/activate'', ''make lint'']"
    by (simp add: Plan_run_commands_def sample_getenv_def sample_run_step_def)
  have a: "Apply_run_commands (sample_digger None None) sample_getenv sample_run_step =
     [''source /ws/app/.venv/bin/activate'', ''make lint'']"
    by (simp add: Apply_run_commands_def sample_getenv_def sample_run_step_def sample_digger_def)
  have "Plan_run (sample_digger None None) sample_getenv sample_run_step ([], 0) =
     (Inr (),
      ([Logged (''Running make lint for **org/repo#prod**'' @ nl),
        RunCalled ''/ws/app'' ''bash'' [''source /ws/.venv/bin/activate'', ''make lint''] None], 1))"
    by (simp add: Plan_run_def p call_Run_def call_def emit_def)
       (simp add: sample_run_step_def sample_digger_def sample_runner_def)
  moreover have "Apply_run (sample_digger None None) sample_getenv sample_run_step ([], 0) =
     (Inr (),
      ([Logged (''Running make lint for **org/repo#prod**'' @ nl),
        RunCalled ''/ws/app'' ''bash'' [''source /ws/app/.venv/bin/activate'', ''make lint''] None], 1))"
    by (simp add: Apply_run_def a call_Run_def call_def emit_def)
       (simp add: sample_run_step_def sample_digger_def sample_runner_def)
  ultimately show ?thesis using p a by blast
qed

end
